theory Spec2Isabelle
  imports Complex_Main "HOL-Library.Multiset"
begin

section \<open>JavaScript numbers\<close>

text \<open>
  A JavaScript number is a finite value, NaN or one of the two infinities. A finite
  value is a real, and the two zeros are one value. The operations \<open>+\<close>, \<open>-\<close>, \<open>*\<close> and
  \<open>/\<close> of this section give the exact result on finite values and follow IEEE 754, as
  ECMAScript prescribes, on the special values; the next section rounds the exact result
  to a double.
\<close>

datatype number = Num real | NaN | PInf | NInf

instantiation number :: "{plus, minus, uminus, times, inverse}"
begin

fun plus_number :: "number \<Rightarrow> number \<Rightarrow> number" where
  "plus_number (Num x) (Num y) = Num (x + y)"
| "plus_number NaN b = NaN"
| "plus_number a NaN = NaN"
| "plus_number PInf NInf = NaN"
| "plus_number NInf PInf = NaN"
| "plus_number PInf b = PInf"
| "plus_number a PInf = PInf"
| "plus_number NInf b = NInf"
| "plus_number a NInf = NInf"

fun uminus_number :: "number \<Rightarrow> number" where
  "uminus_number (Num x) = Num (- x)"
| "uminus_number NaN = NaN"
| "uminus_number PInf = NInf"
| "uminus_number NInf = PInf"

definition minus_number :: "number \<Rightarrow> number \<Rightarrow> number" where
  "minus_number a b = a + (- b)"

fun times_number :: "number \<Rightarrow> number \<Rightarrow> number" where
  "times_number (Num x) (Num y) = Num (x * y)"
| "times_number NaN b = NaN"
| "times_number a NaN = NaN"
| "times_number PInf (Num y) = (if y = 0 then NaN else if 0 < y then PInf else NInf)"
| "times_number NInf (Num y) = (if y = 0 then NaN else if 0 < y then NInf else PInf)"
| "times_number (Num x) PInf = (if x = 0 then NaN else if 0 < x then PInf else NInf)"
| "times_number (Num x) NInf = (if x = 0 then NaN else if 0 < x then NInf else PInf)"
| "times_number PInf PInf = PInf"
| "times_number PInf NInf = NInf"
| "times_number NInf PInf = NInf"
| "times_number NInf NInf = PInf"

fun divide_number :: "number \<Rightarrow> number \<Rightarrow> number" where
  "divide_number (Num x) (Num y) =
     (if y = 0 then (if x = 0 then NaN else if 0 < x then PInf else NInf)
      else Num (x / y))"
| "divide_number NaN b = NaN"
| "divide_number a NaN = NaN"
| "divide_number (Num x) PInf = Num 0"
| "divide_number (Num x) NInf = Num 0"
| "divide_number PInf (Num y) = (if 0 \<le> y then PInf else NInf)"
| "divide_number NInf (Num y) = (if 0 \<le> y then NInf else PInf)"
| "divide_number PInf b = NaN"
| "divide_number NInf b = NaN"

definition inverse_number :: "number \<Rightarrow> number" where
  "inverse_number (a :: number) = (divide (Num 1) a :: number)"

instance ..

end

text \<open>\<open>Number.isFinite\<close>.\<close>

fun isFinite :: "number \<Rightarrow> bool" where
  "isFinite (Num x) = True"
| "isFinite a = False"

text \<open>The relational operator \<open>a < b\<close>; \<open>a > b\<close> is \<open>lt b a\<close>. Any comparison with NaN is false.\<close>

fun lt :: "number \<Rightarrow> number \<Rightarrow> bool" where
  "lt (Num x) (Num y) = (x < y)"
| "lt NaN b = False"
| "lt a NaN = False"
| "lt a NInf = False"
| "lt PInf b = False"
| "lt NInf b = True"
| "lt a PInf = True"

definition gt :: "number \<Rightarrow> number \<Rightarrow> bool" where
  "gt a b = lt b a"

text \<open>Strict equality \<open>a === b\<close> on numbers: NaN equals nothing.\<close>

definition strictEq :: "number \<Rightarrow> number \<Rightarrow> bool" where
  "strictEq a b = (a \<noteq> NaN \<and> b \<noteq> NaN \<and> a = b)"

text \<open>Truthiness of a number, as \<open>||\<close> tests it: 0 and NaN are falsy.\<close>

definition truthy :: "number \<Rightarrow> bool" where
  "truthy a = (a \<noteq> Num 0 \<and> a \<noteq> NaN)"

text \<open>\<open>Math.max\<close> and \<open>Math.min\<close> of two arguments: NaN if either is NaN.\<close>

fun Math_max :: "number \<Rightarrow> number \<Rightarrow> number" where
  "Math_max (Num x) (Num y) = Num (max x y)"
| "Math_max NaN b = NaN"
| "Math_max a NaN = NaN"
| "Math_max PInf b = PInf"
| "Math_max a PInf = PInf"
| "Math_max NInf b = b"
| "Math_max a NInf = a"

fun Math_min :: "number \<Rightarrow> number \<Rightarrow> number" where
  "Math_min (Num x) (Num y) = Num (min x y)"
| "Math_min NaN b = NaN"
| "Math_min a NaN = NaN"
| "Math_min NInf b = NInf"
| "Math_min a NInf = NInf"
| "Math_min PInf b = b"
| "Math_min a PInf = a"

fun Math_abs :: "number \<Rightarrow> number" where
  "Math_abs (Num x) = Num \<bar>x\<bar>"
| "Math_abs NaN = NaN"
| "Math_abs PInf = PInf"
| "Math_abs NInf = PInf"

fun Math_sqrt :: "number \<Rightarrow> number" where
  "Math_sqrt (Num x) = (if x < 0 then NaN else Num (sqrt x))"
| "Math_sqrt NaN = NaN"
| "Math_sqrt PInf = PInf"
| "Math_sqrt NInf = NaN"

text \<open>
  \<open>parseFloat(x.toFixed(2))\<close>. \<open>toFixed(2)\<close> prints the integer \<open>n\<close> for which
  \<open>n / 100\<close> is closest to the magnitude of \<open>x\<close> (the larger \<open>n\<close> on a tie), with the
  sign of \<open>x\<close>; from \<open>10^21\<close> on, and for NaN and the infinities, it prints the number
  itself, and \<open>parseFloat\<close> reads every one of these strings back.
\<close>

definition fixed2 :: "real \<Rightarrow> real" where
  "fixed2 x =
     (if 10 ^ 21 \<le> \<bar>x\<bar> then x
      else if x < 0 then - (of_int \<lfloor>(- x) * 100 + 1 / 2\<rfloor> / 100)
      else of_int \<lfloor>x * 100 + 1 / 2\<rfloor> / 100)"

fun toFixed2 :: "number \<Rightarrow> number" where
  "toFixed2 (Num x) = Num (fixed2 x)"
| "toFixed2 a = a"

text \<open>The relational operator \<open>a <= b\<close>, used to state bounds.\<close>

fun le :: "number \<Rightarrow> number \<Rightarrow> bool" where
  "le (Num x) (Num y) = (x \<le> y)"
| "le NaN b = False"
| "le a NaN = False"
| "le NInf b = True"
| "le a PInf = True"
| "le a NInf = False"
| "le PInf b = False"

section \<open>Binary rounding\<close>

text \<open>
  The arithmetic of the program is IEEE 754 binary64: the exact result of an operation
  is rounded to the nearest double, to the one with the even significand on a tie, and
  to an infinity from \<open>2^1024\<close> on. The sums, differences, products and quotients of the
  price-generation engine and of the fold metrics are these rounded operations
  (\<open>add64\<close>, \<open>sub64\<close>, \<open>mul64\<close>, \<open>div64\<close>, \<open>sqrt64\<close>). Three things stay exact: a
  number literal of the program is its decimal value, \<open>parseFloat(x.toFixed(2))\<close> is the
  decimal that \<open>toFixed\<close> prints, and the differences of time values and the horizon
  predictor use the exact operations.
\<close>

definition pow2 :: "int \<Rightarrow> real" where
  "pow2 k = (if 0 \<le> k then 2 ^ nat k else 1 / 2 ^ nat (- k))"

text \<open>
  A positive magnitude \<open>a\<close> is written \<open>m * 2^e\<close> with \<open>1 \<le> m < 2\<close>, by halving or doubling
  it. The doubling stops at the exponent -1022 of the subnormal numbers, where \<open>m\<close> stays
  below 1, and the halving at the exponent 1024, beyond every double.
\<close>

function scaleDown :: "real \<Rightarrow> int \<Rightarrow> real \<times> int" where
  "scaleDown m e = (if m < 2 \<or> 1024 \<le> e then (m, e) else scaleDown (m / 2) (e + 1))"
  by pat_completeness auto
termination
  by (relation "measure (\<lambda>(m, e). nat (1024 - e))") auto

function scaleUp :: "real \<Rightarrow> int \<Rightarrow> real \<times> int" where
  "scaleUp m e = (if 1 \<le> m \<or> e \<le> - 1022 then (m, e) else scaleUp (2 * m) (e - 1))"
  by pat_completeness auto
termination
  by (relation "measure (\<lambda>(m, e). nat (e + 1022))") auto

declare scaleDown.simps [simp del] scaleUp.simps [simp del]

definition normalise :: "real \<Rightarrow> real \<times> int" where
  "normalise a = (if 1 \<le> a then scaleDown a 0 else scaleUp a 0)"

definition roundHalfEven :: "real \<Rightarrow> int" where
  "roundHalfEven q =
     (let n = \<lfloor>q\<rfloor>; r = q - of_int n
      in if r < 1 / 2 then n else if 1 / 2 < r then n + 1 else if even n then n else n + 1)"

text \<open>
  The double nearest to a real: the significand \<open>m * 2^52\<close> rounded to an integer \<open>n\<close>, and
  \<open>n * 2^(e - 52)\<close> for the value, which reaches \<open>2^1024\<close> when \<open>e\<close> is 1024 or when \<open>e\<close> is
  1023 and the significand rounds up to \<open>2^53\<close>.
\<close>

definition binary64 :: "real \<Rightarrow> number" where
  "binary64 x =
     (if x = 0 then Num 0
      else
        let (m, e) = normalise \<bar>x\<bar>;
            n = roundHalfEven (m * 4503599627370496)
        in if 1024 \<le> e \<or> (e = 1023 \<and> 9007199254740992 \<le> n)
           then (if 0 < x then PInf else NInf)
           else let v = of_int n * pow2 (e - 52) in Num (if 0 < x then v else - v))"

definition round64 :: "number \<Rightarrow> number" where
  "round64 a = (case a of Num x \<Rightarrow> binary64 x | NaN \<Rightarrow> NaN | PInf \<Rightarrow> PInf | NInf \<Rightarrow> NInf)"

definition add64 :: "number \<Rightarrow> number \<Rightarrow> number" where
  "add64 a b = round64 (a + b)"

definition sub64 :: "number \<Rightarrow> number \<Rightarrow> number" where
  "sub64 a b = round64 (a - b)"

definition mul64 :: "number \<Rightarrow> number \<Rightarrow> number" where
  "mul64 a b = round64 (a * b)"

definition div64 :: "number \<Rightarrow> number \<Rightarrow> number" where
  "div64 a b = round64 (a / b)"

definition sqrt64 :: "number \<Rightarrow> number" where
  "sqrt64 a = round64 (Math_sqrt a)"

section \<open>Dates\<close>

text \<open>
  A \<open>Date\<close> holds a time value: the milliseconds since the epoch, an integer of magnitude
  at most \<open>8.64 * 10^15\<close>, or NaN for an Invalid Date (\<open>None\<close>). The model follows the
  ECMAScript definitions of the Date operations the program calls.
\<close>

type_synonym Date = "int option"

datatype error = RangeError

definition TimeClip :: "int \<Rightarrow> Date" where
  "TimeClip t = (if 8640000000000000 < \<bar>t\<bar> then None else Some t)"

text \<open>
  \<open>new Date(s)\<close> for a string: the time value that \<open>Date.parse\<close> finds, clipped. What
  \<open>Date.parse\<close> makes of a string outside the ISO format is left to the implementation,
  so the parser is a parameter \<open>parse\<close> of every function that builds a date from a
  string; \<open>None\<close> is NaN, the result on a string that does not parse.
\<close>

definition newDate :: "(string \<Rightarrow> int option) \<Rightarrow> string \<Rightarrow> Date" where
  "newDate parse s = (case parse s of None \<Rightarrow> None | Some t \<Rightarrow> TimeClip t)"

text \<open>\<open>new Date(date.getTime() - ms)\<close>: NaN stays NaN, a number is clipped.\<close>

definition newDateBefore :: "Date \<Rightarrow> int \<Rightarrow> Date" where
  "newDateBefore date ms = (case date of None \<Rightarrow> None | Some t \<Rightarrow> TimeClip (t - ms))"

definition getTime :: "Date \<Rightarrow> number" where
  "getTime date = (case date of None \<Rightarrow> NaN | Some t \<Rightarrow> Num (of_int t))"

text \<open>\<open>date.setUTCMinutes(0, 0, 0)\<close> on a valid date:
  \<open>MakeDate(Day(t), MakeTime(HourFromTime(t), 0, 0, 0))\<close>, clipped.\<close>

definition setUTCMinutes000 :: "int \<Rightarrow> Date" where
  "setUTCMinutes000 t =
     TimeClip ((t div 86400000) * 86400000 + ((t div 3600000) mod 24) * 3600000)"

definition getUTCHours :: "Date \<Rightarrow> nat option" where
  "getUTCHours date =
     (case date of None \<Rightarrow> None | Some t \<Rightarrow> Some (nat ((t div 3600000) mod 24)))"

text \<open>The year, month (1 to 12) and day of the month of a day number (days since the
  epoch) in the proleptic Gregorian calendar.\<close>

definition civilFromDays :: "int \<Rightarrow> int \<times> int \<times> int" where
  "civilFromDays days =
     (let z = days + 719468;
          era = z div 146097;
          doe = z mod 146097;
          yoe = (doe - doe div 1460 + doe div 36524 - doe div 146096) div 365;
          doy = doe - (365 * yoe + yoe div 4 - yoe div 100);
          mp = (5 * doy + 2) div 153;
          d = doy - (153 * mp + 2) div 5 + 1;
          m = (if mp < 10 then mp + 3 else mp - 9);
          y = yoe + era * 400 + (if m \<le> 2 then 1 else 0)
      in (y, m, d))"

definition digit :: "nat \<Rightarrow> char" where
  "digit n = ''0123456789'' ! (n mod 10)"

text \<open>\<open>pad k n\<close>: the last \<open>k\<close> decimal digits of \<open>n\<close>, padded with zeros.\<close>

fun pad :: "nat \<Rightarrow> nat \<Rightarrow> string" where
  "pad 0 n = []"
| "pad (Suc k) n = pad k (n div 10) @ [digit n]"

definition yearString :: "int \<Rightarrow> string" where
  "yearString y =
     (if 0 \<le> y \<and> y \<le> 9999 then pad 4 (nat y)
      else (if y < 0 then ''-'' else ''+'') @ pad 6 (nat \<bar>y\<bar>))"

text \<open>The string \<open>YYYY-MM-DDTHH:mm:ss.sssZ\<close> of a valid time value.\<close>

definition isoString :: "int \<Rightarrow> string" where
  "isoString t =
     (let (y, m, d) = civilFromDays (t div 86400000);
          timeInDay = t mod 86400000
      in yearString y @ ''-'' @ pad 2 (nat m) @ ''-'' @ pad 2 (nat d) @ ''T''
         @ pad 2 (nat (timeInDay div 3600000)) @ '':''
         @ pad 2 (nat (timeInDay div 60000 mod 60)) @ '':''
         @ pad 2 (nat (timeInDay div 1000 mod 60)) @ ''.''
         @ pad 3 (nat (timeInDay mod 1000)) @ ''Z'')"

text \<open>\<open>date.toISOString()\<close> throws a RangeError on an Invalid Date.\<close>

definition toISOString :: "Date \<Rightarrow> error + string" where
  "toISOString date = (case date of None \<Rightarrow> Inl RangeError | Some t \<Rightarrow> Inr (isoString t))"

text \<open>
  \<open>toHourIso\<close>. After the \<open>isNaN\<close> guard the date is valid, and setting the minutes,
  seconds and milliseconds to zero keeps it valid (lemma \<open>setUTCMinutes000_valid\<close>
  below), so that the RangeError of \<open>toISOString\<close> cannot arise here; the model gives
  that unreachable branch the empty string.
\<close>

definition toHourIso :: "(string \<Rightarrow> int option) \<Rightarrow> string \<Rightarrow> string" where
  "toHourIso parse dateInput =
     (case newDate parse dateInput of
        None \<Rightarrow> []
      | Some t \<Rightarrow> (case toISOString (setUTCMinutes000 t) of Inr s \<Rightarrow> s | Inl e \<Rightarrow> []))"

text \<open>
  A parser for the examples: \<open>Date.parse\<close> on the strings of the form
  \<open>YYYY-MM-DDTHH:mm:ss.sssZ\<close>, the format of \<open>toISOString\<close>, which every implementation
  reads back; every other string is unparsable here.
\<close>

definition digitValue :: "char \<Rightarrow> nat option" where
  "digitValue c =
     (if c \<in> set ''0123456789'' then Some (length (takeWhile (\<lambda>d. d \<noteq> c) ''0123456789''))
      else None)"

fun decimal :: "nat \<Rightarrow> string \<Rightarrow> nat option" where
  "decimal acc [] = Some acc"
| "decimal acc (c # cs) =
     (case digitValue c of None \<Rightarrow> None | Some v \<Rightarrow> decimal (10 * acc + v) cs)"

definition daysInMonth :: "nat \<Rightarrow> nat \<Rightarrow> nat" where
  "daysInMonth y m =
     (if m = 2 then (if y mod 4 = 0 \<and> (y mod 100 \<noteq> 0 \<or> y mod 400 = 0) then 29 else 28)
      else if m = 4 \<or> m = 6 \<or> m = 9 \<or> m = 11 then 30 else 31)"

definition daysFromCivil :: "int \<Rightarrow> int \<Rightarrow> int \<Rightarrow> int" where
  "daysFromCivil y m d =
     (let y' = (if m \<le> 2 then y - 1 else y);
          era = y' div 400;
          yoe = y' mod 400;
          doy = (153 * (if 2 < m then m - 3 else m + 9) + 2) div 5 + d - 1;
          doe = yoe * 365 + yoe div 4 - yoe div 100 + doy
      in era * 146097 + doe - 719468)"

definition parseIso :: "string \<Rightarrow> int option" where
  "parseIso s =
     (if length s = 24 \<and> s ! 4 = CHR ''-'' \<and> s ! 7 = CHR ''-'' \<and> s ! 10 = CHR ''T''
         \<and> s ! 13 = CHR '':'' \<and> s ! 16 = CHR '':'' \<and> s ! 19 = CHR ''.'' \<and> s ! 23 = CHR ''Z''
      then
        (case (decimal 0 (take 4 s), decimal 0 (take 2 (drop 5 s)),
               decimal 0 (take 2 (drop 8 s)), decimal 0 (take 2 (drop 11 s)),
               decimal 0 (take 2 (drop 14 s)), decimal 0 (take 2 (drop 17 s)),
               decimal 0 (take 3 (drop 20 s))) of
           (Some y, Some mo, Some d, Some h, Some mi, Some sec, Some ms) \<Rightarrow>
             if 1 \<le> mo \<and> mo \<le> 12 \<and> 1 \<le> d \<and> d \<le> daysInMonth y mo
                \<and> h \<le> 23 \<and> mi \<le> 59 \<and> sec \<le> 59
             then Some (daysFromCivil (int y) (int mo) (int d) * 86400000
                        + int h * 3600000 + int mi * 60000 + int sec * 1000 + int ms)
             else None
         | _ \<Rightarrow> None)
      else None)"

section \<open>Data model\<close>

record FmiDataPoint =
  time :: string
  temperature :: number
  isForecast :: bool

record SpotPricePoint =
  timestamp :: string
  price :: number
  isFuture :: bool

text \<open>The entries of \<open>historicalPairs\<close>.\<close>

record HistoricalPair =
  timestamp :: string
  temperature :: number
  price :: number

record PriceData =
  timestamp :: string
  actualPrice :: "number option"
  predictedPrice :: number
  temperature :: number
  isFuture :: bool

record AggregateMetrics =
  mae :: number
  rmse :: number
  r2 :: number

record CrossValidationResult =
  fold_idx :: nat
  trainSize :: nat
  testSize :: nat
  mae :: number
  rmse :: number

text \<open>A weight vector of \<open>modelWeights\<close>.\<close>

record Weights =
  lag1 :: number
  lag24 :: number
  hour :: number
  mean :: number
  temp :: number

section \<open>Price-generation engine\<close>

definition mean :: "number list \<Rightarrow> number" where
  "mean values =
     (if length values = 0 then Num 0
      else div64 (foldl (\<lambda>sum value. add64 sum value) (Num 0) values)
             (Num (real (length values))))"

text \<open>
  \<open>buildHourlyProfile\<close>: the prices are grouped by the UTC hour of their timestamp, in
  the order of the pairs, and the profile holds the mean of each group for the hours
  0 to 23 and nothing else.
\<close>

definition buildHourlyProfile ::
    "(string \<Rightarrow> int option) \<Rightarrow> HistoricalPair list \<Rightarrow> (nat \<rightharpoonup> number)" where
  "buildHourlyProfile parse pairs =
     (let grouped = (\<lambda>hour. map HistoricalPair.price
            (filter (\<lambda>point. getUTCHours (newDate parse (HistoricalPair.timestamp point)) = Some hour)
               pairs))
      in (\<lambda>hour. if hour < 24 then Some (mean (grouped hour)) else None))"

text \<open>The \<open>for\<close> loop of \<open>estimateTemperatureBeta\<close> over the paired demands and prices,
  with its accumulators (covariance, variance).\<close>

fun betaLoop :: "number \<Rightarrow> number \<Rightarrow> (number \<times> number) list \<Rightarrow> number \<times> number
    \<Rightarrow> number \<times> number" where
  "betaLoop demandMean priceMean [] acc = acc"
| "betaLoop demandMean priceMean ((d, p) # rest) (covariance, variance) =
     (let demandCentered = sub64 d demandMean
      in betaLoop demandMean priceMean rest
           (add64 covariance (mul64 demandCentered (sub64 p priceMean)),
            add64 variance (mul64 demandCentered demandCentered)))"

definition estimateTemperatureBeta :: "HistoricalPair list \<Rightarrow> number \<Rightarrow> number" where
  "estimateTemperatureBeta pairs comfortTemp =
     (if length pairs < 2 then Num 0
      else
        let demand = map (\<lambda>point. Math_max (Num 0)
                                     (sub64 comfortTemp (HistoricalPair.temperature point))) pairs;
            prices = map HistoricalPair.price pairs;
            demandMean = mean demand;
            priceMean = mean prices;
            (covariance, variance) = betaLoop demandMean priceMean (zip demand prices) (Num 0, Num 0)
        in if strictEq variance (Num 0) then Num 0
           else
             let beta = div64 covariance variance
             in Math_max (Num (- 2.5)) (Math_min (Num 6) beta))"

text \<open>
  \<open>Array.prototype.sort\<close> with a comparator. The sort is stable, and a comparator result
  of NaN counts as 0. Where the comparator is consistent, the result is the one stable
  sorted arrangement; where it is not (some time is NaN), ECMAScript leaves the order to
  the implementation, and the model inserts each element before the first later one
  it does not exceed.
\<close>

fun insertSorted :: "('a \<Rightarrow> 'a \<Rightarrow> number) \<Rightarrow> 'a \<Rightarrow> 'a list \<Rightarrow> 'a list" where
  "insertSorted cmp x [] = [x]"
| "insertSorted cmp x (y # ys) =
     (if gt (cmp x y) (Num 0) then y # insertSorted cmp x ys else x # y # ys)"

definition sortBy :: "('a \<Rightarrow> 'a \<Rightarrow> number) \<Rightarrow> 'a list \<Rightarrow> 'a list" where
  "sortBy cmp xs = foldr (insertSorted cmp) xs []"

definition sortedWeather :: "(string \<Rightarrow> int option) \<Rightarrow> FmiDataPoint list \<Rightarrow> FmiDataPoint list" where
  "sortedWeather parse weatherData =
     sortBy (\<lambda>a b. getTime (newDate parse (time a)) - getTime (newDate parse (time b))) weatherData"

definition marketPriceMap ::
    "(string \<Rightarrow> int option) \<Rightarrow> SpotPricePoint list \<Rightarrow> (string \<rightharpoonup> number)" where
  "marketPriceMap parse spotPrices =
     foldl (\<lambda>m point.
              let hourIso = toHourIso parse (SpotPricePoint.timestamp point)
              in if hourIso \<noteq> [] \<and> isFinite (SpotPricePoint.price point)
                 then m(hourIso \<mapsto> SpotPricePoint.price point) else m)
       Map.empty spotPrices"

definition historicalPairs ::
    "(string \<Rightarrow> int option) \<Rightarrow> (string \<rightharpoonup> number) \<Rightarrow> FmiDataPoint list \<Rightarrow> HistoricalPair list" where
  "historicalPairs parse pm sortedData =
     List.map_filter
       (\<lambda>obs. let timestamp = toHourIso parse (time obs)
              in case pm timestamp of
                   None \<Rightarrow> None
                 | Some found \<Rightarrow>
                     Some \<lparr>HistoricalPair.timestamp = timestamp,
                           temperature = FmiDataPoint.temperature obs,
                           price = found\<rparr>)
       (filter (\<lambda>obs. \<not> isForecast obs) sortedData)"

definition comfortTemp :: number where
  "comfortTemp = Num 15"

text \<open>\<open>mean(...) || 30\<close>: the mean unless it is falsy.\<close>

definition globalMean :: "HistoricalPair list \<Rightarrow> number" where
  "globalMean pairs =
     (let m = mean (map HistoricalPair.price pairs) in if truthy m then m else Num 30)"

definition avgDemand :: "HistoricalPair list \<Rightarrow> number" where
  "avgDemand pairs =
     mean (map (\<lambda>point. Math_max (Num 0) (sub64 comfortTemp (HistoricalPair.temperature point)))
             pairs)"

text \<open>The own properties of the object literal \<open>modelWeights\<close>.\<close>

definition modelWeights :: "(string \<times> Weights) list" where
  "modelWeights =
     [(''Linear Regression'',
         \<lparr>lag1 = Num 0.45, lag24 = Num 0.00, hour = Num 0.35, mean = Num 0.20, temp = Num 0.9\<rparr>),
      (''Random Forest'',
         \<lparr>lag1 = Num 0.54, lag24 = Num 0.06, hour = Num 0.30, mean = Num 0.10, temp = Num 1.05\<rparr>),
      (''Gradient Boosting'',
         \<lparr>lag1 = Num 0.60, lag24 = Num 0.05, hour = Num 0.28, mean = Num 0.07, temp = Num 1.15\<rparr>)]"

text \<open>
  \<open>modelWeights\<close> is an object literal, so a property read that finds no own property
  goes on to \<open>Object.prototype\<close>. These are the property names of \<open>Object.prototype\<close>
  (the standard ones and those of Annex B); each holds a function or an object, which is
  truthy and has none of the fields \<open>lag1\<close>, \<open>lag24\<close>, \<open>hour\<close>, \<open>mean\<close>, \<open>temp\<close>.
\<close>

definition objectPrototypeNames :: "string list" where
  "objectPrototypeNames =
     [''constructor'', ''hasOwnProperty'', ''isPrototypeOf'', ''propertyIsEnumerable'',
      ''toLocaleString'', ''toString'', ''valueOf'', ''__proto__'', ''__defineGetter__'',
      ''__defineSetter__'', ''__lookupGetter__'', ''__lookupSetter__'']"

text \<open>
  \<open>modelWeights[modelType] || modelWeights['Gradient Boosting']\<close>, seen through the five
  fields the engine reads of it. An own property is its weight vector. A property
  inherited from \<open>Object.prototype\<close> is truthy, so it is taken; each field read of it is
  \<open>undefined\<close>, which the multiplication converts to NaN. Any other name reads
  \<open>undefined\<close>, and the Gradient Boosting vector stands in.
\<close>

definition weightsFor :: "string \<Rightarrow> Weights" where
  "weightsFor modelType =
     (case map_of modelWeights modelType of
        Some w \<Rightarrow> w
      | None \<Rightarrow>
          if modelType \<in> set objectPrototypeNames
          then \<lparr>lag1 = NaN, lag24 = NaN, hour = NaN, mean = NaN, temp = NaN\<rparr>
          else the (map_of modelWeights ''Gradient Boosting''))"

text \<open>The values the callback of \<open>sortedWeather.map\<close> closes over and does not change.\<close>

record Closure =
  priceMap :: "string \<rightharpoonup> number"
  cGlobalMean :: number
  cHourlyProfile :: "nat \<rightharpoonup> number"
  cAvgDemand :: number
  cTempBeta :: number
  cWeights :: Weights

text \<open>
  One call of the callback of \<open>sortedWeather.map\<close>, given the current \<open>lagHistory\<close> and
  \<open>prevPrice\<close>: the record it returns and \<open>realizedForLag\<close>, or the RangeError that
  \<open>toISOString\<close> throws.
\<close>

definition predictOne ::
    "(string \<Rightarrow> int option) \<Rightarrow> Closure \<Rightarrow> (string \<rightharpoonup> number) \<Rightarrow> number \<Rightarrow> FmiDataPoint
      \<Rightarrow> error + (PriceData \<times> number)" where
  "predictOne parse c lagHistory prevPrice obs =
     (let hourIso = toHourIso parse (time obs);
          timestamp = (if hourIso \<noteq> [] then hourIso else time obs);
          date = newDate parse timestamp;
          hour = getUTCHours date;
          demand = Math_max (Num 0) (sub64 comfortTemp (FmiDataPoint.temperature obs));
          centeredDemand = sub64 demand (cAvgDemand c)
      in case toISOString (newDateBefore date (60 * 60 * 1000)) of
           Inl e \<Rightarrow> Inl e
         | Inr prevHour \<Rightarrow>
        (case toISOString (newDateBefore date (24 * 60 * 60 * 1000)) of
           Inl e \<Rightarrow> Inl e
         | Inr prev24Hour \<Rightarrow>
             let lag1 = (case lagHistory prevHour of Some v \<Rightarrow> v | None \<Rightarrow> prevPrice);
                 lag24 = (case lagHistory prev24Hour of Some v \<Rightarrow> v | None \<Rightarrow> cGlobalMean c);
                 profileAtHour = (case hour of None \<Rightarrow> None | Some h \<Rightarrow> cHourlyProfile c h);
                 hourMean =
                   (case profileAtHour of
                      Some v \<Rightarrow> if isFinite v \<and> gt v (Num 0) then v else cGlobalMean c
                    | None \<Rightarrow> cGlobalMean c);
                 predictedRaw =
                   add64
                     (add64
                        (add64
                           (add64 (mul64 (Weights.lag1 (cWeights c)) lag1)
                                  (mul64 (Weights.lag24 (cWeights c)) lag24))
                           (mul64 (Weights.hour (cWeights c)) hourMean))
                        (mul64 (Weights.mean (cWeights c)) (cGlobalMean c)))
                     (mul64 (mul64 (Weights.temp (cWeights c)) (cTempBeta c)) centeredDemand);
                 predictedPrice = toFixed2 (Math_max (Num (- 20)) (Math_min (Num 450) predictedRaw));
                 marketPrice = priceMap c timestamp;
                 actualPrice =
                   (case marketPrice of
                      Some v \<Rightarrow> if \<not> isForecast obs then Some (toFixed2 v) else None
                    | None \<Rightarrow> None);
                 realizedForLag = (case actualPrice of Some v \<Rightarrow> v | None \<Rightarrow> predictedPrice)
             in Inr (\<lparr>PriceData.timestamp = timestamp,
                      actualPrice = actualPrice,
                      predictedPrice = predictedPrice,
                      temperature = FmiDataPoint.temperature obs,
                      isFuture = isForecast obs\<rparr>,
                     realizedForLag)))"

text \<open>\<open>sortedWeather.map\<close>: the callback runs on the samples in order and updates
  \<open>lagHistory\<close> and \<open>prevPrice\<close>; an exception ends the whole call.\<close>

fun predictAll ::
    "(string \<Rightarrow> int option) \<Rightarrow> Closure \<Rightarrow> (string \<rightharpoonup> number) \<Rightarrow> number \<Rightarrow> FmiDataPoint list
      \<Rightarrow> error + PriceData list" where
  "predictAll parse c lagHistory prevPrice [] = Inr []"
| "predictAll parse c lagHistory prevPrice (obs # rest) =
     (case predictOne parse c lagHistory prevPrice obs of
        Inl e \<Rightarrow> Inl e
      | Inr (r, realizedForLag) \<Rightarrow>
          (case predictAll parse c (lagHistory(PriceData.timestamp r \<mapsto> realizedForLag))
                  realizedForLag rest of
             Inl e \<Rightarrow> Inl e
           | Inr rs \<Rightarrow> Inr (r # rs)))"

definition generatePriceFromWeather ::
    "(string \<Rightarrow> int option) \<Rightarrow> FmiDataPoint list \<Rightarrow> SpotPricePoint list \<Rightarrow> string
      \<Rightarrow> error + PriceData list" where
  "generatePriceFromWeather parse weatherData spotPrices modelType =
     (let sortedData = sortedWeather parse weatherData;
          pm = marketPriceMap parse spotPrices;
          pairs = historicalPairs parse pm sortedData;
          c = \<lparr>priceMap = pm,
               cGlobalMean = globalMean pairs,
               cHourlyProfile = buildHourlyProfile parse pairs,
               cAvgDemand = avgDemand pairs,
               cTempBeta = estimateTemperatureBeta pairs comfortTemp,
               cWeights = weightsFor modelType\<rparr>
      in predictAll parse c Map.empty (globalMean pairs) sortedData)"

section \<open>Metrics and cross-validation\<close>

text \<open>
  The \<open>for\<close> loop of \<open>computeFoldMetrics\<close> over the paired predictions and actuals, with
  its three accumulators (absoluteError, squaredError, totalVariance). The test
  \<open>totalVariance === 0\<close> is on a sum of rounded squares of rounded differences.
\<close>

fun metricsLoop :: "number \<Rightarrow> (number \<times> number) list \<Rightarrow> number \<times> number \<times> number
    \<Rightarrow> number \<times> number \<times> number" where
  "metricsLoop meanActual [] acc = acc"
| "metricsLoop meanActual ((p, a) # rest) (absoluteError, squaredError, totalVariance) =
     (let error = sub64 p a; centered = sub64 a meanActual
      in metricsLoop meanActual rest
           (add64 absoluteError (Math_abs error), add64 squaredError (mul64 error error),
            add64 totalVariance (mul64 centered centered)))"

definition computeFoldMetrics :: "PriceData list \<Rightarrow> AggregateMetrics" where
  "computeFoldMetrics slice =
     (let valid = filter (\<lambda>point. actualPrice point \<noteq> None) slice
      in if length valid = 0 then \<lparr>AggregateMetrics.mae = Num 0, rmse = Num 0, r2 = Num 0\<rparr>
         else
           let actuals = map (\<lambda>point. the (actualPrice point)) valid;
               predictions = map predictedPrice valid;
               meanActual = div64 (foldl (\<lambda>sum value. add64 sum value) (Num 0) actuals)
                              (Num (real (length actuals)));
               (absoluteError, squaredError, totalVariance) =
                 metricsLoop meanActual (zip predictions actuals) (Num 0, Num 0, Num 0)
           in \<lparr>AggregateMetrics.mae = div64 absoluteError (Num (real (length valid))),
               rmse = sqrt64 (div64 squaredError (Num (real (length valid)))),
               r2 = (if strictEq totalVariance (Num 0) then Num 0
                     else sub64 (Num 1) (div64 squaredError totalVariance))\<rparr>)"

text \<open>\<open>Array.prototype.slice(start, end)\<close> for indices that are natural numbers.\<close>

definition slice :: "'a list \<Rightarrow> nat \<Rightarrow> nat \<Rightarrow> 'a list" where
  "slice xs start end = take (end - start) (drop start xs)"

text \<open>The fold loop of \<open>performTimeSeriesCV\<close>: \<open>for (let i = 1; i <= folds; i++)\<close>,
  returning the results pushed from \<open>i\<close> on.\<close>

function cvLoop :: "PriceData list \<Rightarrow> nat \<Rightarrow> nat \<Rightarrow> nat \<Rightarrow> CrossValidationResult list" where
  "cvLoop historical foldSize folds i =
     (if i \<le> folds then
        (let totalSize = length historical;
             trainEnd = i * foldSize;
             testEnd = min totalSize ((i + 1) * foldSize);
             testSlice = slice historical trainEnd testEnd;
             m = computeFoldMetrics testSlice
         in \<lparr>fold_idx = i, trainSize = trainEnd, testSize = length testSlice,
              mae = toFixed2 (AggregateMetrics.mae m),
              rmse = toFixed2 (AggregateMetrics.rmse m)\<rparr>
            # cvLoop historical foldSize folds (i + 1))
      else [])"
  by pat_completeness auto
termination
  by (relation "measure (\<lambda>(historical, foldSize, folds, i). Suc folds - i)") auto

declare cvLoop.simps [simp del]

definition performTimeSeriesCV :: "PriceData list \<Rightarrow> CrossValidationResult list" where
  "performTimeSeriesCV data =
     (let historical = filter (\<lambda>point. actualPrice point \<noteq> None \<and> \<not> PriceData.isFuture point) data
      in if length historical < 12 then []
         else
           let folds = 4;
               totalSize = length historical;
               foldSize = totalSize div (folds + 1)
           in if foldSize < 2 then [] else cvLoop historical foldSize folds 1)"

definition computeAggregateMetrics :: "PriceData list \<Rightarrow> AggregateMetrics" where
  "computeAggregateMetrics data =
     (let historical = filter (\<lambda>point. actualPrice point \<noteq> None \<and> \<not> PriceData.isFuture point) data;
          metrics = computeFoldMetrics historical
      in \<lparr>AggregateMetrics.mae = toFixed2 (AggregateMetrics.mae metrics),
          rmse = toFixed2 (AggregateMetrics.rmse metrics),
          r2 = toFixed2 (r2 metrics)\<rparr>)"

definition predictHorizon :: "number \<Rightarrow> number \<Rightarrow> number" where
  "predictHorizon currentPrice currentTemp =
     (let heatingDemand = Math_max (Num 0) (Num 15 - currentTemp)
      in toFixed2 (currentPrice + heatingDemand * Num 0.35))"

section \<open>Notions used in the statements\<close>

text \<open>The points that \<open>performTimeSeriesCV\<close> and \<open>computeAggregateMetrics\<close> keep: historical
  points with a defined actual price.\<close>

definition historicalOf :: "PriceData list \<Rightarrow> PriceData list" where
  "historicalOf data =
     filter (\<lambda>point. actualPrice point \<noteq> None \<and> \<not> PriceData.isFuture point) data"

text \<open>Rounding a non-negative magnitude to two decimals, half up.\<close>

definition half_up :: "real \<Rightarrow> real" where
  "half_up x = of_int \<lfloor>x * 100 + 1 / 2\<rfloor> / 100"

text \<open>A series of fourteen historical points with actual prices, for the examples.\<close>

definition fourteenPoints :: "PriceData list" where
  "fourteenPoints =
     replicate 14 \<lparr>PriceData.timestamp = ''2025-02-18T10:00:00.000Z'', actualPrice = Some (Num 40),
                   predictedPrice = Num 41, temperature = Num 5, isFuture = False\<rparr>"

text \<open>Three points of the same actual price 0.1, each predicted at 0.2; the prices are the
  doubles that the literals denote.\<close>

definition constantPoint :: PriceData where
  "constantPoint =
     \<lparr>PriceData.timestamp = ''2025-02-18T10:00:00.000Z'',
      actualPrice = Some (binary64 (1 / 10)), predictedPrice = binary64 (2 / 10),
      temperature = Num 5, isFuture = False\<rparr>"

definition constantSlice :: "PriceData list" where
  "constantSlice = [constantPoint, constantPoint, constantPoint]"

text \<open>One historical weather sample and one spot price of the same hour, for the examples.\<close>

definition oneSample :: "FmiDataPoint list" where
  "oneSample = [\<lparr>time = ''2025-02-18T10:00:00.000Z'', temperature = Num 5, isForecast = False\<rparr>]"

definition oneSpot :: "SpotPricePoint list" where
  "oneSpot =
     [\<lparr>SpotPricePoint.timestamp = ''2025-02-18T10:00:00.000Z'', price = Num 42.123, isFuture = False\<rparr>]"

text \<open>A spot price of 0 for the hour of \<open>oneSample\<close>.\<close>

definition zeroSpot :: "SpotPricePoint list" where
  "zeroSpot =
     [\<lparr>SpotPricePoint.timestamp = ''2025-02-18T10:00:00.000Z'', price = Num 0, isFuture = False\<rparr>]"

text \<open>A spot price entry of the hour of \<open>oneSample\<close> whose price is NaN.\<close>

definition nanSpot :: "SpotPricePoint list" where
  "nanSpot =
     [\<lparr>SpotPricePoint.timestamp = ''2025-02-18T10:00:00.000Z'', price = NaN, isFuture = False\<rparr>]"

text \<open>A finite number of magnitude at most \<open>c\<close>.\<close>

definition finiteWithin :: "real \<Rightarrow> number \<Rightarrow> bool" where
  "finiteWithin c a = (case a of Num x \<Rightarrow> \<bar>x\<bar> \<le> c | NaN \<Rightarrow> False | PInf \<Rightarrow> False | NInf \<Rightarrow> False)"

text \<open>
  Inputs on which no sum or product of the engine overflows: a temperature is
  \<open>+Infinity\<close> or a number from \<open>-10^100\<close> upwards (the heating demand is 0 from 15
  degrees on, however large the temperature), and a spot price that is a finite number
  has magnitude at most \<open>10^100\<close> (the others are skipped by the engine).
\<close>

definition boundedTemperature :: "number \<Rightarrow> bool" where
  "boundedTemperature t =
     (case t of Num x \<Rightarrow> - (10 ^ 100) \<le> x | NaN \<Rightarrow> False | PInf \<Rightarrow> True | NInf \<Rightarrow> False)"

definition boundedPrice :: "number \<Rightarrow> bool" where
  "boundedPrice p =
     (case p of Num x \<Rightarrow> \<bar>x\<bar> \<le> 10 ^ 100 | NaN \<Rightarrow> True | PInf \<Rightarrow> True | NInf \<Rightarrow> True)"

text \<open>The closure of the callback holds numbers of bounded magnitude.\<close>

definition boundedWeights :: "Weights \<Rightarrow> bool" where
  "boundedWeights w =
     (finiteWithin 2 (Weights.lag1 w) \<and> finiteWithin 2 (Weights.lag24 w) \<and> finiteWithin 2 (Weights.hour w)
      \<and> finiteWithin 2 (Weights.mean w) \<and> finiteWithin 2 (Weights.temp w))"

definition boundedClosure :: "Closure \<Rightarrow> bool" where
  "boundedClosure c =
     ((\<forall>k v. priceMap c k = Some v \<longrightarrow> finiteWithin (10 ^ 100) v)
      \<and> finiteWithin (pow2 333) (cGlobalMean c)
      \<and> (\<forall>h v. cHourlyProfile c h = Some v \<longrightarrow> finiteWithin (pow2 333) v)
      \<and> finiteWithin (pow2 333) (cAvgDemand c) \<and> finiteWithin (pow2 3) (cTempBeta c)
      \<and> boundedWeights (cWeights c))"

text \<open>Two historical pairs whose prices are the double \<open>2^1023\<close>, about \<open>8.99 * 10^307\<close>.\<close>

definition hugePairs :: "HistoricalPair list" where
  "hugePairs =
     [\<lparr>HistoricalPair.timestamp = ''2025-02-18T10:00:00.000Z'', temperature = Num 5,
        price = Num (2 ^ 1023)\<rparr>,
      \<lparr>HistoricalPair.timestamp = ''2025-02-18T11:00:00.000Z'', temperature = Num 3,
        price = Num (2 ^ 1023)\<rparr>]"

text \<open>A weather sample whose temperature is NaN.\<close>

definition nanSample :: "FmiDataPoint list" where
  "nanSample = [\<lparr>time = ''2025-02-18T10:00:00.000Z'', temperature = NaN, isForecast = False\<rparr>]"

text \<open>The time value of a weather sample whose time parses (0 stands in otherwise).\<close>

definition timeValue :: "(string \<Rightarrow> int option) \<Rightarrow> FmiDataPoint \<Rightarrow> int" where
  "timeValue parse obs = (case newDate parse (time obs) of Some t \<Rightarrow> t | None \<Rightarrow> 0)"

text \<open>Two weather samples of the same instant and different temperatures.\<close>

definition twoSamplesSameTime :: "FmiDataPoint list" where
  "twoSamplesSameTime =
     [\<lparr>time = ''2025-02-18T10:00:00.000Z'', temperature = Num 5, isForecast = False\<rparr>,
      \<lparr>time = ''2025-02-18T10:00:00.000Z'', temperature = Num 3, isForecast = False\<rparr>]"

text \<open>Two weather samples an hour apart.\<close>

definition twoSamples :: "FmiDataPoint list" where
  "twoSamples =
     [\<lparr>time = ''2025-02-18T10:00:00.000Z'', temperature = Num 5, isForecast = False\<rparr>,
      \<lparr>time = ''2025-02-18T11:00:00.000Z'', temperature = Num 3, isForecast = True\<rparr>]"

text \<open>
  A weather sample on which the callback returns: its time parses, lies at least a day
  after the least time value, and the parser reads the hour key of the sample back.
\<close>

definition readsBack :: "(string \<Rightarrow> int option) \<Rightarrow> FmiDataPoint \<Rightarrow> bool" where
  "readsBack parse obs =
     (case newDate parse (time obs) of
        None \<Rightarrow> False
      | Some t \<Rightarrow> - 8640000000000000 + 86400000 \<le> t
                 \<and> parse (isoString (t - t mod 3600000)) = Some (t - t mod 3600000))"

section \<open>Rounding to two decimals\<close>

lemma half_up_mono: "x \<le> y \<Longrightarrow> half_up x \<le> half_up y"
  unfolding half_up_def by (simp add: floor_mono divide_right_mono)

lemma half_up_nonneg: "0 \<le> x \<Longrightarrow> 0 \<le> half_up x"
  unfolding half_up_def by simp

lemma half_up_bound: "x < 10 ^ 21 \<Longrightarrow> half_up x \<le> 10 ^ 21"
  unfolding half_up_def by simp

lemma fixed2_alt:
  "fixed2 x = (if 10 ^ 21 \<le> \<bar>x\<bar> then x else if x < 0 then - half_up (- x) else half_up x)"
  by (simp add: fixed2_def half_up_def)

lemma fixed2_mono:
  assumes xy: "x \<le> y"
  shows "fixed2 x \<le> fixed2 y"
proof -
  consider (big) "10 ^ 21 \<le> \<bar>x\<bar>" "10 ^ 21 \<le> \<bar>y\<bar>"
    | (xbig) "10 ^ 21 \<le> \<bar>x\<bar>" "\<bar>y\<bar> < 10 ^ 21"
    | (ybig) "\<bar>x\<bar> < 10 ^ 21" "10 ^ 21 \<le> \<bar>y\<bar>"
    | (small) "\<bar>x\<bar> < 10 ^ 21" "\<bar>y\<bar> < 10 ^ 21"
    by linarith
  then show ?thesis
  proof cases
    case big
    then show ?thesis using xy by (simp add: fixed2_alt)
  next
    case xbig
    then have x: "x \<le> - (10 ^ 21)" using xy by linarith
    have "half_up (- y) \<le> 10 ^ 21" using xbig by (intro half_up_bound) linarith
    moreover have "0 \<le> y \<Longrightarrow> 0 \<le> half_up y" by (rule half_up_nonneg)
    ultimately show ?thesis using xbig x by (auto simp: fixed2_alt)
  next
    case ybig
    then have y: "10 ^ 21 \<le> y" using xy by linarith
    have "half_up x \<le> 10 ^ 21" using ybig by (intro half_up_bound) linarith
    moreover have "x < 0 \<Longrightarrow> 0 \<le> half_up (- x)" by (rule half_up_nonneg) simp
    ultimately show ?thesis using ybig y by (auto simp: fixed2_alt)
  next
    case small
    have a: "x < 0 \<Longrightarrow> y < 0 \<Longrightarrow> half_up (- y) \<le> half_up (- x)"
      using xy by (intro half_up_mono) simp
    have b: "x < 0 \<Longrightarrow> 0 \<le> half_up (- x)" by (rule half_up_nonneg) simp
    have c: "0 \<le> y \<Longrightarrow> 0 \<le> half_up y" by (rule half_up_nonneg)
    have d: "half_up x \<le> half_up y" using xy by (rule half_up_mono)
    show ?thesis using small a b c d xy by (auto simp: fixed2_alt)
  qed
qed

section \<open>The horizon predictor\<close>

text \<open>
  C10. For finite \<open>currentPrice\<close> and \<open>currentTemp\<close>, \<open>predictHorizon\<close> is at least the
  price rounded to two decimals, equals it from 15 degrees on, and is antitone in the
  temperature.
\<close>

theorem predictHorizon_bounds:
  "le (toFixed2 (Num p)) (predictHorizon (Num p) (Num t))
   \<and> (15 \<le> t \<longrightarrow> predictHorizon (Num p) (Num t) = toFixed2 (Num p))
   \<and> (t \<le> t' \<longrightarrow> le (predictHorizon (Num p) (Num t')) (predictHorizon (Num p) (Num t)))"
  by (auto simp: predictHorizon_def minus_number_def intro!: fixed2_mono mult_right_mono)

theorem predictHorizon_bounds_witness:
  "le (toFixed2 (Num 50)) (predictHorizon (Num 50) (Num 5))
   \<and> predictHorizon (Num 50) (Num 15) = toFixed2 (Num 50)
   \<and> le (predictHorizon (Num 50) (Num 15)) (predictHorizon (Num 50) (Num 5))
   \<and> predictHorizon (Num 50) (Num 5) = Num 53.5"
  using predictHorizon_bounds [of 50 5 15] predictHorizon_bounds [of 50 15 15]
  by (simp add: predictHorizon_def minus_number_def fixed2_def)

section \<open>Cross-validation\<close>

lemma cvLoop_map:
  "cvLoop h f folds i =
     map (\<lambda>i. \<lparr>fold_idx = i, trainSize = i * f,
                testSize = length (slice h (i * f) (min (length h) ((i + 1) * f))),
                mae = toFixed2 (AggregateMetrics.mae
                        (computeFoldMetrics (slice h (i * f) (min (length h) ((i + 1) * f))))),
                rmse = toFixed2 (AggregateMetrics.rmse
                        (computeFoldMetrics (slice h (i * f) (min (length h) ((i + 1) * f)))))\<rparr>)
       [i..<Suc folds]"
proof (induction h f folds i rule: cvLoop.induct)
  case (1 h f folds i)
  show ?case
  proof (cases "i \<le> folds")
    case True
    then have "[i..<Suc folds] = i # [Suc i..<Suc folds]" by (simp add: upt_rec)
    with True 1 show ?thesis by (subst cvLoop.simps) (simp add: Let_def)
  next
    case False
    then show ?thesis by (subst cvLoop.simps) simp
  qed
qed

lemma upt_1_5: "[Suc 0..<5] = [1, 2, 3, 4]"
  by (simp add: upt_rec)

lemma slice_length: "length (slice xs a b) = min (length xs) b - a"
  by (auto simp: slice_def)

lemma cvLoop_shape:
  "map (\<lambda>r. (fold_idx r, trainSize r, testSize r)) (cvLoop h f 4 1) =
     map (\<lambda>i. (i, i * f, min (length h) ((i + 1) * f) - i * f)) [1, 2, 3, 4]"
  by (simp add: cvLoop_map upt_1_5 slice_length)

lemma performTimeSeriesCV_small:
  "length (historicalOf data) < 12 \<Longrightarrow> performTimeSeriesCV data = []"
  by (simp add: performTimeSeriesCV_def historicalOf_def)

lemma performTimeSeriesCV_large:
  assumes "12 \<le> length (historicalOf data)"
  shows "performTimeSeriesCV data =
           cvLoop (historicalOf data) (length (historicalOf data) div 5) 4 1"
proof -
  let ?h = "historicalOf data"
  have "2 \<le> length ?h div 5" using assms by linarith
  then show ?thesis
    using assms by (simp add: performTimeSeriesCV_def historicalOf_def Let_def)
qed

lemma fold_size:
  assumes "i \<le> 4"
  shows "min n ((i + 1) * (n div 5)) - i * (n div 5) = n div (5::nat)"
proof -
  have "(i + 1) * (n div 5) \<le> 5 * (n div 5)" using assms by (intro mult_le_mono1) simp
  also have "\<dots> \<le> n" by simp
  finally have "min n ((i + 1) * (n div 5)) = (i + 1) * (n div 5)" by simp
  then show ?thesis by simp
qed

lemma historicalOf_fourteenPoints: "historicalOf fourteenPoints = fourteenPoints"
  by (simp add: historicalOf_def fourteenPoints_def)

lemma length_fourteenPoints: "length fourteenPoints = 14"
  by (simp add: fourteenPoints_def)

lemma a14: "12 \<le> length (historicalOf fourteenPoints)"
  by (simp add: historicalOf_fourteenPoints length_fourteenPoints)

lemma cv14:
  "map (\<lambda>r. (fold_idx r, trainSize r, testSize r)) (performTimeSeriesCV fourteenPoints) =
     [(1, 2, 2), (2, 4, 2), (3, 6, 2), (4, 8, 2)]"
  unfolding performTimeSeriesCV_large [OF a14] cvLoop_shape
  by (simp add: historicalOf_fourteenPoints length_fourteenPoints)

lemma replicate_4: "replicate 4 x = [x, x, x, x]"
  by (simp add: numeral_eq_Suc)

text \<open>
  C9. \<open>performTimeSeriesCV\<close> returns no fold or exactly four, numbered 1, 2, 3, 4 in order.
\<close>

theorem performTimeSeriesCV_none_or_four:
  "performTimeSeriesCV data = [] \<or> map fold_idx (performTimeSeriesCV data) = [1, 2, 3, 4]"
proof (cases "length (historicalOf data) < 12")
  case True
  then show ?thesis by (simp add: performTimeSeriesCV_small)
next
  case False
  then have "12 \<le> length (historicalOf data)" by simp
  then show ?thesis by (simp add: performTimeSeriesCV_large cvLoop_map upt_1_5)
qed

theorem performTimeSeriesCV_none_or_four_witness:
  "map fold_idx (performTimeSeriesCV fourteenPoints) = [1, 2, 3, 4]
   \<and> performTimeSeriesCV [] = []"
proof -
  have "performTimeSeriesCV fourteenPoints \<noteq> []"
    using cv14 by auto
  moreover have "performTimeSeriesCV [] = []"
    by (simp add: performTimeSeriesCV_def)
  ultimately show ?thesis
    using performTimeSeriesCV_none_or_four [of fourteenPoints] by simp
qed

text \<open>
  C6, amended. With \<open>total\<close> the number of historical points that have an actual price:
  below 12 there is no fold; otherwise, with \<open>foldSize = total div 5\<close>, fold \<open>i\<close> of 1..4 has
  \<open>trainSize = i * foldSize\<close> and \<open>testSize = min total ((i + 1) * foldSize) - i * foldSize\<close>,
  which is \<open>foldSize\<close> for every fold, the last one too: the test windows end at
  \<open>5 * foldSize\<close>, and the \<open>total mod 5\<close> points after it are in no window.
\<close>

theorem performTimeSeriesCV_folds:
  "(length (historicalOf data) < 12 \<longrightarrow> performTimeSeriesCV data = [])
   \<and> (12 \<le> length (historicalOf data) \<longrightarrow>
        map (\<lambda>r. (fold_idx r, trainSize r, testSize r)) (performTimeSeriesCV data) =
          map (\<lambda>i. (i, i * (length (historicalOf data) div 5),
                     min (length (historicalOf data)) ((i + 1) * (length (historicalOf data) div 5))
                       - i * (length (historicalOf data) div 5)))
            [1, 2, 3, 4]
        \<and> map testSize (performTimeSeriesCV data) =
            replicate 4 (length (historicalOf data) div 5)
        \<and> 2 \<le> length (historicalOf data) div 5
        \<and> 5 * (length (historicalOf data) div 5) + length (historicalOf data) mod 5 =
            length (historicalOf data))"
proof (intro conjI impI)
  assume "length (historicalOf data) < 12"
  then show "performTimeSeriesCV data = []" by (rule performTimeSeriesCV_small)
next
  assume big: "12 \<le> length (historicalOf data)"
  define n where "n = length (historicalOf data)"
  have shape: "map (\<lambda>r. (fold_idx r, trainSize r, testSize r)) (performTimeSeriesCV data) =
          map (\<lambda>i. (i, i * (n div 5), min n ((i + 1) * (n div 5)) - i * (n div 5))) [1, 2, 3, 4]"
    unfolding n_def by (simp only: performTimeSeriesCV_large [OF big] cvLoop_shape)
  then show "map (\<lambda>r. (fold_idx r, trainSize r, testSize r)) (performTimeSeriesCV data) =
          map (\<lambda>i. (i, i * (length (historicalOf data) div 5),
                     min (length (historicalOf data)) ((i + 1) * (length (historicalOf data) div 5))
                       - i * (length (historicalOf data) div 5)))
            [1, 2, 3, 4]"
    unfolding n_def .
  have "map testSize (performTimeSeriesCV data) =
          map (\<lambda>(i, a, b). b) (map (\<lambda>r. (fold_idx r, trainSize r, testSize r)) (performTimeSeriesCV data))"
    by (simp add: comp_def)
  also have "\<dots> = map (\<lambda>i. min n ((i + 1) * (n div 5)) - i * (n div 5)) [1, 2, 3, 4]"
    unfolding shape by simp
  also have "\<dots> = [n div 5, n div 5, n div 5, n div 5]"
    using fold_size [of 1 n] fold_size [of 2 n] fold_size [of 3 n] fold_size [of 4 n]
    by simp
  finally show "map testSize (performTimeSeriesCV data) =
      replicate 4 (length (historicalOf data) div 5)"
    unfolding n_def replicate_4 .
  show "2 \<le> length (historicalOf data) div 5" using big by linarith
  show "5 * (length (historicalOf data) div 5) + length (historicalOf data) mod 5 =
      length (historicalOf data)" by simp
qed


theorem performTimeSeriesCV_folds_witness:
  "performTimeSeriesCV [] = []
   \<and> map (\<lambda>r. (fold_idx r, trainSize r, testSize r)) (performTimeSeriesCV fourteenPoints) =
       [(1, 2, 2), (2, 4, 2), (3, 6, 2), (4, 8, 2)]"
proof -
  have a: "length (historicalOf fourteenPoints) = 14"
    by (simp add: historicalOf_fourteenPoints length_fourteenPoints)
  have b: "length (historicalOf []) = 0"
    by (simp add: historicalOf_def)
  have "performTimeSeriesCV [] = []"
    using performTimeSeriesCV_folds [of "[]"] unfolding b by simp
  moreover have "map (\<lambda>r. (fold_idx r, trainSize r, testSize r)) (performTimeSeriesCV fourteenPoints) =
       [(1, 2, 2), (2, 4, 2), (3, 6, 2), (4, 8, 2)]"
    using performTimeSeriesCV_folds [of fourteenPoints] unfolding a by simp
  ultimately show ?thesis by simp
qed

text \<open>
  C6 as stated has the last fold absorb the remainder, so that its test window would end
  at the last point. On fourteen points the fourth fold trains on 8 and tests 2: the last
  four points are in no fold.
\<close>

theorem performTimeSeriesCV_remainder_counterexample:
  "\<not> (trainSize (last (performTimeSeriesCV fourteenPoints))
        + testSize (last (performTimeSeriesCV fourteenPoints))
      = length (historicalOf fourteenPoints))"
proof -
  have "map (\<lambda>r. trainSize r + testSize r) (performTimeSeriesCV fourteenPoints) =
      map (\<lambda>(i, a, b). a + b)
        (map (\<lambda>r. (fold_idx r, trainSize r, testSize r)) (performTimeSeriesCV fourteenPoints))"
    by (simp add: comp_def)
  then have sums: "map (\<lambda>r. trainSize r + testSize r) (performTimeSeriesCV fourteenPoints) =
      [4, 6, 8, 10]"
    unfolding cv14 by simp
  then have ne: "performTimeSeriesCV fourteenPoints \<noteq> []" by auto
  have "trainSize (last (performTimeSeriesCV fourteenPoints))
        + testSize (last (performTimeSeriesCV fourteenPoints)) =
      last (map (\<lambda>r. trainSize r + testSize r) (performTimeSeriesCV fourteenPoints))"
    using ne by (simp add: last_map)
  also have "\<dots> = 10" unfolding sums by simp
  finally show ?thesis
    by (simp add: historicalOf_fourteenPoints length_fourteenPoints)
qed

section \<open>Metrics\<close>

lemma plus_eq_NaN_right: "a + NaN = NaN"
  by (cases a) auto

lemma isFinite_iff: "isFinite a \<longleftrightarrow> (\<exists>r. a = Num r)"
  by (cases a) auto

text \<open>The \<open>r2\<close> field of the result, without the other two fields.\<close>

lemma computeFoldMetrics_r2:
  "r2 (computeFoldMetrics pts) =
     (let valid = filter (\<lambda>point. actualPrice point \<noteq> None) pts
      in if length valid = 0 then Num 0
         else
           let actuals = map (\<lambda>point. the (actualPrice point)) valid;
               predictions = map predictedPrice valid;
               meanActual = div64 (foldl (\<lambda>sum value. add64 sum value) (Num 0) actuals)
                              (Num (real (length actuals)));
               totals = metricsLoop meanActual (zip predictions actuals) (Num 0, Num 0, Num 0)
           in if strictEq (snd (snd totals)) (Num 0) then Num 0
              else sub64 (Num 1) (div64 (fst (snd totals)) (snd (snd totals))))"
  by (simp add: computeFoldMetrics_def Let_def split: prod.splits)

lemmas binary64_simps =
  binary64_def normalise_def scaleUp.simps scaleDown.simps roundHalfEven_def pow2_def Let_def
  round64_def add64_def sub64_def mul64_def div64_def minus_number_def

text \<open>The doubles of the literals 0.1 and 0.2.\<close>

lemma constantPoint_prices:
  "actualPrice constantPoint = Some (Num (3602879701896397 / 36028797018963968))"
  "predictedPrice constantPoint = Num (3602879701896397 / 18014398509481984)"
  by (simp_all add: constantPoint_def binary64_simps)

text \<open>The sum of the three actual prices is rounded up, and so is its third: the mean is
  the double after 0.1.\<close>

lemma constantSlice_mean:
  "div64 (foldl (\<lambda>sum value. add64 sum value) (Num 0)
            (replicate 3 (Num (3602879701896397 / 36028797018963968)))) (Num 3)
   = Num (7205759403792795 / 72057594037927936)"
  by (simp add: eval_nat_numeral binary64_simps)

text \<open>The three accumulators after the loop: 0.30000000000000004, 0.030000000000000006
  and \<open>3 / 2^112\<close>.\<close>

lemma constantSlice_totals:
  "metricsLoop (Num (7205759403792795 / 72057594037927936))
     (replicate 3 (Num (3602879701896397 / 18014398509481984),
                   Num (3602879701896397 / 36028797018963968)))
     (Num 0, Num 0, Num 0)
   = (Num (1351079888211149 / 4503599627370496),
      Num (4323455642275677 / 144115188075855872),
      Num (3 / 5192296858534827628530496329220096))"
  by (simp add: eval_nat_numeral binary64_simps)

lemma constantSlice_r2:
  "r2 (computeFoldMetrics constantSlice) = Num (- 51922968585348286373368128602112)"
  using constantSlice_mean constantSlice_totals
  by (simp add: computeFoldMetrics_r2 constantSlice_def constantPoint_prices eval_nat_numeral
        strictEq_def binary64_simps)

text \<open>
  C7. The claim has \<open>r2 = 0\<close> whenever the actual prices of the slice have no variance,
  as those of a constant slice. On three points of actual price 0.1 the rounded mean is
  not 0.1, the computed \<open>totalVariance\<close> is \<open>3 / 2^112\<close> and not 0, the test
  \<open>totalVariance === 0\<close> fails, and with predictions of 0.2 \<open>computeFoldMetrics\<close> returns an
  \<open>r2\<close> of about \<open>-5.19 * 10^31\<close>.
\<close>

theorem computeFoldMetrics_constant_slice:
  "map actualPrice constantSlice
     = [Some (Num (3602879701896397 / 36028797018963968)),
        Some (Num (3602879701896397 / 36028797018963968)),
        Some (Num (3602879701896397 / 36028797018963968))]
   \<and> r2 (computeFoldMetrics constantSlice) = Num (- 51922968585348286373368128602112)
   \<and> r2 (computeFoldMetrics constantSlice) \<noteq> Num 0"
proof -
  have "map actualPrice constantSlice
     = [Some (Num (3602879701896397 / 36028797018963968)),
        Some (Num (3602879701896397 / 36028797018963968)),
        Some (Num (3602879701896397 / 36028797018963968))]"
    by (simp add: constantSlice_def constantPoint_prices)
  then show ?thesis by (simp add: constantSlice_r2)
qed

section \<open>Dates and hour keys\<close>

lemma hour_floor:
  "(t div 86400000) * 86400000 + ((t div 3600000) mod 24) * 3600000 = t - t mod (3600000::int)"
proof -
  define q where "q = t div 3600000"
  have a: "t div 86400000 = q div 24"
    unfolding q_def by (simp add: zdiv_zmult2_eq)
  have "q div 24 * 86400000 + (q mod 24) * 3600000 = q * 3600000"
    using div_mult_mod_eq [of q 24] by linarith
  moreover have "q * 3600000 = t - t mod 3600000"
    unfolding q_def by (simp add: algebra_simps minus_mod_eq_mult_div)
  ultimately show ?thesis unfolding a q_def [symmetric] by simp
qed

lemma setUTCMinutes000_valid:
  assumes "TimeClip t = Some t"
  shows "setUTCMinutes000 t = Some (t - t mod 3600000)"
proof -
  have r: "\<bar>t\<bar> \<le> 8640000000000000" using assms by (simp add: TimeClip_def split: if_splits)
  have up: "t - t mod 3600000 \<le> t" by simp
  have "- 2400000000 \<le> t div 3600000" using r by linarith
  then have "- 2400000000 * 3600000 \<le> (t div 3600000) * 3600000" by linarith
  then have low: "- 8640000000000000 \<le> t - t mod 3600000"
    by (simp add: algebra_simps minus_mod_eq_mult_div)
  show ?thesis
    unfolding setUTCMinutes000_def hour_floor using r up low by (simp add: TimeClip_def)
qed

lemma TimeClip_Some: "TimeClip t = Some u \<Longrightarrow> u = t \<and> TimeClip t = Some t"
  by (simp add: TimeClip_def split: if_splits)

lemma newDate_Some: "newDate parse s = Some t \<Longrightarrow> TimeClip t = Some t"
  by (auto simp: newDate_def split: option.splits dest: TimeClip_Some)

lemma toHourIso_eq:
  "toHourIso parse s =
     (case newDate parse s of None \<Rightarrow> [] | Some t \<Rightarrow> isoString (t - t mod 3600000))"
  by (auto simp: toHourIso_def toISOString_def setUTCMinutes000_valid dest!: newDate_Some
      split: option.splits)

lemma isoString_nonempty: "isoString t \<noteq> []"
  by (simp add: isoString_def Let_def split: prod.splits)

lemma toHourIso_empty_iff: "toHourIso parse s = [] \<longleftrightarrow> newDate parse s = None"
  by (simp add: toHourIso_eq isoString_nonempty split: option.splits)

section \<open>The engine on an unparsable time\<close>

lemma predictOne_invalid:
  "newDate parse (time obs) = None \<Longrightarrow> predictOne parse c lagHistory prevPrice obs = Inl RangeError"
  by (simp add: predictOne_def toHourIso_eq newDateBefore_def toISOString_def Let_def)

lemma error_is_RangeError: "(e :: error) = RangeError"
  by (cases e) simp

lemma predictAll_invalid:
  "\<exists>obs \<in> set ws. newDate parse (time obs) = None \<Longrightarrow>
     predictAll parse c lagHistory prevPrice ws = Inl RangeError"
proof (induction ws arbitrary: lagHistory prevPrice)
  case Nil
  then show ?case by simp
next
  case (Cons obs rest)
  show ?case
  proof (cases "predictOne parse c lagHistory prevPrice obs")
    case (Inl e)
    then show ?thesis by (simp add: error_is_RangeError)
  next
    case (Inr rr)
    then have "newDate parse (time obs) \<noteq> None" using predictOne_invalid by fastforce
    then have "\<exists>obs \<in> set rest. newDate parse (time obs) = None" using Cons.prems by auto
    then show ?thesis using Inr Cons.IH by (simp split: prod.splits)
  qed
qed

lemma mset_insertSorted: "mset (insertSorted cmp x ys) = add_mset x (mset ys)"
  by (induction ys) auto

lemma mset_sortBy: "mset (sortBy cmp xs) = mset xs"
  unfolding sortBy_def by (induction xs) (auto simp: mset_insertSorted)

lemma set_sortedWeather: "set (sortedWeather parse ws) = set ws"
  unfolding sortedWeather_def using mset_sortBy by (metis set_mset_mset)

lemma length_sortedWeather: "length (sortedWeather parse ws) = length ws"
  unfolding sortedWeather_def using mset_sortBy by (metis size_mset)

text \<open>
  C1. The claim is that the engine never throws. Where the time string of some weather
  sample does not parse, the callback reaches \<open>toISOString\<close> on an Invalid Date, and the
  whole call ends in a RangeError, whatever the other inputs are.
\<close>

theorem generatePriceFromWeather_throws:
  "\<exists>obs \<in> set weatherData. newDate parse (time obs) = None \<Longrightarrow>
     generatePriceFromWeather parse weatherData spotPrices modelType = Inl RangeError"
  unfolding generatePriceFromWeather_def Let_def
  by (rule predictAll_invalid) (simp add: set_sortedWeather)

theorem generatePriceFromWeather_throws_witness:
  "newDate parseIso (time \<lparr>time = [], temperature = Num 5, isForecast = False\<rparr>) = None
   \<and> generatePriceFromWeather parseIso
       [\<lparr>time = [], temperature = Num 5, isForecast = False\<rparr>] [] ''Gradient Boosting''
     = Inl RangeError"
proof -
  have a: "newDate parseIso (time \<lparr>time = [], temperature = Num 5, isForecast = False\<rparr>) = None"
    by (simp add: newDate_def parseIso_def)
  then show ?thesis
    using generatePriceFromWeather_throws
      [of "[\<lparr>time = [], temperature = Num 5, isForecast = False\<rparr>]" parseIso "[]" "''Gradient Boosting''"]
    by simp
qed

section \<open>The model selector\<close>

lemma Math_min_NaN: "Math_min a NaN = NaN"
  by (cases a) auto

lemma Math_max_NaN: "Math_max a NaN = NaN"
  by (cases a) auto

lemma weightsFor_inherited:
  "modelType \<in> set objectPrototypeNames \<Longrightarrow>
     weightsFor modelType = \<lparr>lag1 = NaN, lag24 = NaN, hour = NaN, mean = NaN, temp = NaN\<rparr>"
  by (auto simp: weightsFor_def objectPrototypeNames_def modelWeights_def)

lemma mul64_NaN_left: "mul64 NaN b = NaN"
  by (simp add: mul64_def round64_def)

lemma add64_NaN_right: "add64 a NaN = NaN"
  by (simp add: add64_def round64_def plus_eq_NaN_right)

lemma predictOne_NaN_weights:
  assumes "cWeights c = \<lparr>lag1 = NaN, lag24 = NaN, hour = NaN, mean = NaN, temp = NaN\<rparr>"
    and "predictOne parse c lagHistory prevPrice obs = Inr (r, realized)"
  shows "predictedPrice r = NaN"
  using assms
  by (auto simp: predictOne_def Let_def mul64_NaN_left add64_NaN_right Math_min_NaN Math_max_NaN
      split: sum.splits)

lemma predictAll_NaN_weights:
  assumes "cWeights c = \<lparr>lag1 = NaN, lag24 = NaN, hour = NaN, mean = NaN, temp = NaN\<rparr>"
  shows "predictAll parse c lagHistory prevPrice ws = Inr out \<Longrightarrow> r \<in> set out \<Longrightarrow>
     predictedPrice r = NaN"
proof (induction ws arbitrary: lagHistory prevPrice out)
  case Nil
  then show ?case by simp
next
  case (Cons obs rest)
  from Cons.prems(1) obtain r0 realized rs where
    one: "predictOne parse c lagHistory prevPrice obs = Inr (r0, realized)"
    and rest: "predictAll parse c (lagHistory(PriceData.timestamp r0 \<mapsto> realized)) realized rest = Inr rs"
    and out: "out = r0 # rs"
    by (auto split: sum.splits prod.splits)
  show ?case
  proof (cases "r = r0")
    case True
    then show ?thesis using predictOne_NaN_weights [OF assms one] by simp
  next
    case False
    then have "r \<in> set rs" using Cons.prems(2) out by simp
    then show ?thesis using Cons.IH [OF rest] by simp
  qed
qed

text \<open>
  C4. The claim is that every name other than the three model names selects the
  Gradient Boosting weights. A name that \<open>Object.prototype\<close> defines, such as
  \<open>constructor\<close>, is found on the prototype chain of the weight table, is truthy and
  has no weight fields: every predicted price of the run is then NaN.
\<close>

theorem inherited_modelType_gives_NaN:
  "modelType \<in> set objectPrototypeNames \<Longrightarrow>
   generatePriceFromWeather parse weatherData spotPrices modelType = Inr out \<Longrightarrow>
   r \<in> set out \<Longrightarrow> predictedPrice r = NaN"
  unfolding generatePriceFromWeather_def Let_def
  by (rule predictAll_NaN_weights [rotated]) (auto simp: weightsFor_inherited)


lemma run_oneSample_GradientBoosting:
  "generatePriceFromWeather parseIso oneSample oneSpot ''Gradient Boosting'' =
     Inr [\<lparr>PriceData.timestamp = ''2025-02-18T10:00:00.000Z'', actualPrice = Some (Num 42.12),
            predictedPrice = Num 42.12, temperature = Num 5, isFuture = False\<rparr>]"
  by code_simp

lemma run_oneSample_constructor:
  "generatePriceFromWeather parseIso oneSample oneSpot ''constructor'' =
     Inr [\<lparr>PriceData.timestamp = ''2025-02-18T10:00:00.000Z'', actualPrice = Some (Num 42.12),
            predictedPrice = NaN, temperature = Num 5, isFuture = False\<rparr>]"
  by code_simp

theorem inherited_modelType_gives_NaN_witness:
  "''constructor'' \<in> set objectPrototypeNames
   \<and> ''constructor'' \<noteq> ''Linear Regression'' \<and> ''constructor'' \<noteq> ''Random Forest''
   \<and> ''constructor'' \<noteq> ''Gradient Boosting''
   \<and> map predictedPrice (projr (generatePriceFromWeather parseIso oneSample oneSpot ''constructor''))
       = [NaN]
   \<and> map predictedPrice
         (projr (generatePriceFromWeather parseIso oneSample oneSpot ''Gradient Boosting''))
       = [Num 42.12]"
proof -
  have m: "''constructor'' \<in> set objectPrototypeNames"
    by (simp add: objectPrototypeNames_def)
  have "\<forall>r \<in> set (projr (generatePriceFromWeather parseIso oneSample oneSpot ''constructor'')).
          predictedPrice r = NaN"
    using inherited_modelType_gives_NaN [OF m run_oneSample_constructor]
    by (simp add: run_oneSample_constructor)
  then have "map predictedPrice
      (projr (generatePriceFromWeather parseIso oneSample oneSpot ''constructor'')) = [NaN]"
    by (simp add: run_oneSample_constructor)
  then show ?thesis
    using m by (simp add: run_oneSample_GradientBoosting)
qed

section \<open>The global mean\<close>

lemma marketPriceMap_foldl_finite:
  assumes "\<forall>k v. m k = Some v \<longrightarrow> isFinite v"
  shows "foldl (\<lambda>m point.
              let hourIso = toHourIso parse (SpotPricePoint.timestamp point)
              in if hourIso \<noteq> [] \<and> isFinite (SpotPricePoint.price point)
                 then m(hourIso \<mapsto> SpotPricePoint.price point) else m) m spotPrices k = Some v
         \<Longrightarrow> isFinite v"
  using assms
proof (induction spotPrices arbitrary: m)
  case Nil
  then show ?case by simp
next
  case (Cons p ps)
  show ?case
    by (rule Cons.IH [OF Cons.prems(1) [simplified]]) (use Cons.prems(2) in \<open>auto simp: Let_def\<close>)
qed

lemma marketPriceMap_finite: "marketPriceMap parse spotPrices k = Some v \<Longrightarrow> isFinite v"
  unfolding marketPriceMap_def by (rule marketPriceMap_foldl_finite [rotated]) auto

lemma historicalPairs_member:
  assumes "p \<in> set (historicalPairs parse pm sortedData)"
  shows "\<exists>obs \<in> set sortedData. \<not> isForecast obs
           \<and> HistoricalPair.timestamp p = toHourIso parse (time obs)
           \<and> HistoricalPair.temperature p = FmiDataPoint.temperature obs
           \<and> pm (toHourIso parse (time obs)) = Some (HistoricalPair.price p)"
  using assms
  by (auto simp: historicalPairs_def List.map_filter_def Let_def split: option.splits)

lemma historicalPairs_price_finite:
  "p \<in> set (historicalPairs parse (marketPriceMap parse spotPrices) sortedData) \<Longrightarrow>
     isFinite (HistoricalPair.price p)"
  using historicalPairs_member marketPriceMap_finite by blast

lemma pairs_zeroSpot:
  "map HistoricalPair.price
     (historicalPairs parseIso (marketPriceMap parseIso zeroSpot) (sortedWeather parseIso oneSample))
     = [Num 0]"
  by code_simp

lemma globalMean_zeroSpot:
  "globalMean
     (historicalPairs parseIso (marketPriceMap parseIso zeroSpot) (sortedWeather parseIso oneSample))
     = Num 30"
  by code_simp

lemma mean_zeroSpot:
  "mean (map HistoricalPair.price
     (historicalPairs parseIso (marketPriceMap parseIso zeroSpot) (sortedWeather parseIso oneSample)))
     = Num 0"
  unfolding pairs_zeroSpot by (simp add: mean_def add64_def div64_def round64_def binary64_def)

lemma run_oneSample_zeroSpot:
  "generatePriceFromWeather parseIso oneSample zeroSpot ''Gradient Boosting'' =
     Inr [\<lparr>PriceData.timestamp = ''2025-02-18T10:00:00.000Z'', actualPrice = Some (Num 0),
            predictedPrice = Num 30, temperature = Num 5, isFuture = False\<rparr>]"
  by code_simp

text \<open>
  C5. The claim has \<open>globalMean\<close> equal the mean of the historical prices whenever a
  historical pair exists. On one historical sample whose hour has the spot price 0 there
  is one pair, the mean of the prices is 0, and \<open>mean(...) || 30\<close> takes the 0 for the
  empty-list value of \<open>mean\<close>: \<open>globalMean\<close> is 30, and the sample, whose actual price
  is 0, is predicted at 30.
\<close>

theorem globalMean_zero_mean:
  "historicalPairs parseIso (marketPriceMap parseIso zeroSpot) (sortedWeather parseIso oneSample) \<noteq> []
   \<and> mean (map HistoricalPair.price
        (historicalPairs parseIso (marketPriceMap parseIso zeroSpot) (sortedWeather parseIso oneSample)))
       = Num 0
   \<and> globalMean
        (historicalPairs parseIso (marketPriceMap parseIso zeroSpot) (sortedWeather parseIso oneSample))
       = Num 30
   \<and> generatePriceFromWeather parseIso oneSample zeroSpot ''Gradient Boosting'' =
       Inr [\<lparr>PriceData.timestamp = ''2025-02-18T10:00:00.000Z'', actualPrice = Some (Num 0),
              predictedPrice = Num 30, temperature = Num 5, isFuture = False\<rparr>]"
proof -
  have "historicalPairs parseIso (marketPriceMap parseIso zeroSpot) (sortedWeather parseIso oneSample)
      \<noteq> []"
    using pairs_zeroSpot by auto
  then show ?thesis by (simp add: mean_zeroSpot globalMean_zeroSpot run_oneSample_zeroSpot)
qed

section \<open>Actual prices\<close>

lemma marketPriceMap_foldl_Some:
  "foldl (\<lambda>m point.
              let hourIso = toHourIso parse (SpotPricePoint.timestamp point)
              in if hourIso \<noteq> [] \<and> isFinite (SpotPricePoint.price point)
                 then m(hourIso \<mapsto> SpotPricePoint.price point) else m) m spotPrices k = Some v
   \<Longrightarrow> m k = Some v \<or>
       (\<exists>p \<in> set spotPrices. isFinite (SpotPricePoint.price p)
          \<and> toHourIso parse (SpotPricePoint.timestamp p) = k \<and> k \<noteq> []
          \<and> v = SpotPricePoint.price p)"
proof (induction spotPrices arbitrary: m)
  case Nil
  then show ?case by simp
next
  case (Cons p ps)
  from Cons.IH [OF Cons.prems [simplified]] show ?case
    by (auto simp: Let_def split: if_splits)
qed

lemma marketPriceMap_foldl_defined:
  "m k \<noteq> None \<or>
       (\<exists>p \<in> set spotPrices. isFinite (SpotPricePoint.price p)
          \<and> toHourIso parse (SpotPricePoint.timestamp p) = k \<and> k \<noteq> [])
   \<Longrightarrow> foldl (\<lambda>m point.
              let hourIso = toHourIso parse (SpotPricePoint.timestamp point)
              in if hourIso \<noteq> [] \<and> isFinite (SpotPricePoint.price point)
                 then m(hourIso \<mapsto> SpotPricePoint.price point) else m) m spotPrices k \<noteq> None"
proof (induction spotPrices arbitrary: m)
  case Nil
  then show ?case by simp
next
  case (Cons p ps)
  show ?case
    unfolding foldl_Cons
    by (rule Cons.IH) (use Cons.prems in \<open>auto simp: Let_def\<close>)
qed

lemma marketPriceMap_Some:
  "marketPriceMap parse spotPrices k = Some v \<Longrightarrow>
     \<exists>p \<in> set spotPrices. isFinite (SpotPricePoint.price p)
          \<and> toHourIso parse (SpotPricePoint.timestamp p) = k \<and> v = SpotPricePoint.price p"
  unfolding marketPriceMap_def using marketPriceMap_foldl_Some [of parse Map.empty spotPrices k v]
  by auto

lemma marketPriceMap_defined_iff:
  "marketPriceMap parse spotPrices k \<noteq> None \<longleftrightarrow>
     k \<noteq> [] \<and> (\<exists>p \<in> set spotPrices. isFinite (SpotPricePoint.price p)
          \<and> toHourIso parse (SpotPricePoint.timestamp p) = k)"
proof
  assume "marketPriceMap parse spotPrices k \<noteq> None"
  then obtain v where "marketPriceMap parse spotPrices k = Some v" by auto
  then show "k \<noteq> [] \<and> (\<exists>p \<in> set spotPrices. isFinite (SpotPricePoint.price p)
          \<and> toHourIso parse (SpotPricePoint.timestamp p) = k)"
    unfolding marketPriceMap_def
    using marketPriceMap_foldl_Some [of parse Map.empty spotPrices k v] by auto
next
  assume "k \<noteq> [] \<and> (\<exists>p \<in> set spotPrices. isFinite (SpotPricePoint.price p)
          \<and> toHourIso parse (SpotPricePoint.timestamp p) = k)"
  then show "marketPriceMap parse spotPrices k \<noteq> None"
    unfolding marketPriceMap_def
    using marketPriceMap_foldl_defined [of Map.empty k spotPrices parse] by blast
qed

lemma predictOne_record:
  assumes "predictOne parse c lagHistory prevPrice obs = Inr (r, realized)"
  shows "newDate parse (time obs) \<noteq> None
       \<and> PriceData.timestamp r = toHourIso parse (time obs)
       \<and> actualPrice r =
           (case priceMap c (toHourIso parse (time obs)) of
              Some v \<Rightarrow> if \<not> isForecast obs then Some (toFixed2 v) else None
            | None \<Rightarrow> None)
       \<and> PriceData.temperature r = FmiDataPoint.temperature obs
       \<and> PriceData.isFuture r = isForecast obs"
proof -
  have v: "newDate parse (time obs) \<noteq> None"
    using assms predictOne_invalid by fastforce
  then have h: "toHourIso parse (time obs) \<noteq> []" by (simp add: toHourIso_empty_iff)
  show ?thesis
    using assms v h by (auto simp: predictOne_def Let_def split: sum.splits)
qed

lemma predictAll_records:
  "predictAll parse c lagHistory prevPrice ws = Inr out \<Longrightarrow>
     list_all2 (\<lambda>obs r. newDate parse (time obs) \<noteq> None
       \<and> PriceData.timestamp r = toHourIso parse (time obs)
       \<and> actualPrice r =
           (case priceMap c (toHourIso parse (time obs)) of
              Some v \<Rightarrow> if \<not> isForecast obs then Some (toFixed2 v) else None
            | None \<Rightarrow> None)
       \<and> PriceData.temperature r = FmiDataPoint.temperature obs
       \<and> PriceData.isFuture r = isForecast obs) ws out"
proof (induction ws arbitrary: lagHistory prevPrice out)
  case Nil
  then show ?case by simp
next
  case (Cons obs rest)
  from Cons.prems obtain r0 realized rs where
    one: "predictOne parse c lagHistory prevPrice obs = Inr (r0, realized)"
    and rest: "predictAll parse c (lagHistory(PriceData.timestamp r0 \<mapsto> realized)) realized rest = Inr rs"
    and out: "out = r0 # rs"
    by (auto split: sum.splits prod.splits)
  show ?case
    unfolding out using predictOne_record [OF one] Cons.IH [OF rest] by simp
qed

text \<open>
  C3, amended. In the output of the engine, record by record against the sorted weather
  samples: \<open>actualPrice\<close> is defined if and only if the sample is not a forecast and the
  spot-price series has an entry with a finite price whose hour key (\<open>toHourIso\<close>) equals
  the hour key of the sample; and a defined \<open>actualPrice\<close> is the price of such an entry,
  rounded to two decimals, never a prediction.
\<close>

theorem actualPrice_defined_iff:
  assumes "generatePriceFromWeather parse weatherData spotPrices modelType = Inr out"
  shows "list_all2
     (\<lambda>obs r.
        (actualPrice r \<noteq> None \<longleftrightarrow>
           \<not> isForecast obs
           \<and> (\<exists>p \<in> set spotPrices. isFinite (SpotPricePoint.price p)
                 \<and> toHourIso parse (SpotPricePoint.timestamp p) = toHourIso parse (time obs)))
        \<and> (\<forall>v. actualPrice r = Some v \<longrightarrow>
             (\<exists>p \<in> set spotPrices. isFinite (SpotPricePoint.price p)
                 \<and> toHourIso parse (SpotPricePoint.timestamp p) = toHourIso parse (time obs)
                 \<and> v = toFixed2 (SpotPricePoint.price p))))
     (sortedWeather parse weatherData) out"
proof -
  have "list_all2 (\<lambda>obs r. newDate parse (time obs) \<noteq> None
       \<and> PriceData.timestamp r = toHourIso parse (time obs)
       \<and> actualPrice r =
           (case marketPriceMap parse spotPrices (toHourIso parse (time obs)) of
              Some v \<Rightarrow> if \<not> isForecast obs then Some (toFixed2 v) else None
            | None \<Rightarrow> None)
       \<and> PriceData.temperature r = FmiDataPoint.temperature obs
       \<and> PriceData.isFuture r = isForecast obs) (sortedWeather parse weatherData) out"
    using predictAll_records [OF assms [unfolded generatePriceFromWeather_def Let_def]] by simp
  then show ?thesis
  proof (rule list_all2_mono)
    fix obs :: FmiDataPoint and r :: PriceData
    assume a: "newDate parse (time obs) \<noteq> None
       \<and> PriceData.timestamp r = toHourIso parse (time obs)
       \<and> actualPrice r =
           (case marketPriceMap parse spotPrices (toHourIso parse (time obs)) of
              Some v \<Rightarrow> if \<not> isForecast obs then Some (toFixed2 v) else None
            | None \<Rightarrow> None)
       \<and> PriceData.temperature r = FmiDataPoint.temperature obs
       \<and> PriceData.isFuture r = isForecast obs"
    then have k: "toHourIso parse (time obs) \<noteq> []" by (simp add: toHourIso_empty_iff)
    have iff: "actualPrice r \<noteq> None \<longleftrightarrow>
        \<not> isForecast obs \<and> marketPriceMap parse spotPrices (toHourIso parse (time obs)) \<noteq> None"
      using a by (auto split: option.splits)
    have val: "\<And>v. actualPrice r = Some v \<Longrightarrow>
        \<exists>w. marketPriceMap parse spotPrices (toHourIso parse (time obs)) = Some w \<and> v = toFixed2 w"
      using a by (auto split: option.splits if_splits)
    show "(actualPrice r \<noteq> None \<longleftrightarrow>
           \<not> isForecast obs
           \<and> (\<exists>p \<in> set spotPrices. isFinite (SpotPricePoint.price p)
                 \<and> toHourIso parse (SpotPricePoint.timestamp p) = toHourIso parse (time obs)))
        \<and> (\<forall>v. actualPrice r = Some v \<longrightarrow>
             (\<exists>p \<in> set spotPrices. isFinite (SpotPricePoint.price p)
                 \<and> toHourIso parse (SpotPricePoint.timestamp p) = toHourIso parse (time obs)
                 \<and> v = toFixed2 (SpotPricePoint.price p)))"
    proof (intro conjI allI impI)
      show "actualPrice r \<noteq> None \<longleftrightarrow>
           \<not> isForecast obs
           \<and> (\<exists>p \<in> set spotPrices. isFinite (SpotPricePoint.price p)
                 \<and> toHourIso parse (SpotPricePoint.timestamp p) = toHourIso parse (time obs))"
        unfolding iff marketPriceMap_defined_iff using k by simp
    next
      fix v
      assume "actualPrice r = Some v"
      from val [OF this] obtain w where
        w: "marketPriceMap parse spotPrices (toHourIso parse (time obs)) = Some w" and v: "v = toFixed2 w"
        by auto
      from marketPriceMap_Some [OF w] v
      show "\<exists>p \<in> set spotPrices. isFinite (SpotPricePoint.price p)
                 \<and> toHourIso parse (SpotPricePoint.timestamp p) = toHourIso parse (time obs)
                 \<and> v = toFixed2 (SpotPricePoint.price p)" by auto
    qed
  qed
qed


lemma sortedWeather_single: "sortedWeather parse [obs] = [obs]"
  by (simp add: sortedWeather_def sortBy_def)

lemma toHourIso_example:
  "toHourIso parseIso ''2025-02-18T10:00:00.000Z'' = ''2025-02-18T10:00:00.000Z''"
  by code_simp

lemma run_oneSample_nanSpot:
  "generatePriceFromWeather parseIso oneSample nanSpot ''Gradient Boosting'' =
     Inr [\<lparr>PriceData.timestamp = ''2025-02-18T10:00:00.000Z'', actualPrice = None,
            predictedPrice = Num 30, temperature = Num 5, isFuture = False\<rparr>]"
  by code_simp

theorem actualPrice_defined_iff_witness:
  "generatePriceFromWeather parseIso oneSample oneSpot ''Gradient Boosting'' =
     Inr [\<lparr>PriceData.timestamp = ''2025-02-18T10:00:00.000Z'', actualPrice = Some (Num 42.12),
            predictedPrice = Num 42.12, temperature = Num 5, isFuture = False\<rparr>]
   \<and> (\<exists>p \<in> set oneSpot. isFinite (SpotPricePoint.price p)
         \<and> toHourIso parseIso (SpotPricePoint.timestamp p)
             = toHourIso parseIso (time (hd oneSample))
         \<and> Num 42.12 = toFixed2 (SpotPricePoint.price p))"
proof -
  have "list_all2
     (\<lambda>obs r.
        (actualPrice r \<noteq> None \<longleftrightarrow>
           \<not> isForecast obs
           \<and> (\<exists>p \<in> set oneSpot. isFinite (SpotPricePoint.price p)
                 \<and> toHourIso parseIso (SpotPricePoint.timestamp p) = toHourIso parseIso (time obs)))
        \<and> (\<forall>v. actualPrice r = Some v \<longrightarrow>
             (\<exists>p \<in> set oneSpot. isFinite (SpotPricePoint.price p)
                 \<and> toHourIso parseIso (SpotPricePoint.timestamp p) = toHourIso parseIso (time obs)
                 \<and> v = toFixed2 (SpotPricePoint.price p))))
     (sortedWeather parseIso oneSample)
     [\<lparr>PriceData.timestamp = ''2025-02-18T10:00:00.000Z'', actualPrice = Some (Num 42.12),
            predictedPrice = Num 42.12, temperature = Num 5, isFuture = False\<rparr>]"
    by (rule actualPrice_defined_iff [OF run_oneSample_GradientBoosting])
  then have "\<exists>p \<in> set oneSpot. isFinite (SpotPricePoint.price p)
         \<and> toHourIso parseIso (SpotPricePoint.timestamp p)
             = toHourIso parseIso (time (hd oneSample))
         \<and> Num 42.12 = toFixed2 (SpotPricePoint.price p)"
    unfolding oneSample_def sortedWeather_single by simp
  then show ?thesis using run_oneSample_GradientBoosting by simp
qed

text \<open>
  C3 as stated asks only for an entry of the same hour. A spot entry of the same hour
  whose price is NaN is not entered into \<open>marketPriceMap\<close>, and the historical sample
  gets no actual price.
\<close>

theorem actualPrice_nonfinite_counterexample:
  "generatePriceFromWeather parseIso oneSample nanSpot ''Gradient Boosting'' =
     Inr [\<lparr>PriceData.timestamp = ''2025-02-18T10:00:00.000Z'', actualPrice = None,
            predictedPrice = Num 30, temperature = Num 5, isFuture = False\<rparr>]
   \<and> \<not> isForecast (hd oneSample)
   \<and> toHourIso parseIso (SpotPricePoint.timestamp (hd nanSpot)) = toHourIso parseIso (time (hd oneSample))
   \<and> toHourIso parseIso (time (hd oneSample)) = ''2025-02-18T10:00:00.000Z''"
proof -
  have a: "\<not> isForecast (hd oneSample)" by (simp add: oneSample_def)
  have b: "toHourIso parseIso (time (hd oneSample)) = ''2025-02-18T10:00:00.000Z''"
    by (simp add: oneSample_def toHourIso_example)
  have c: "toHourIso parseIso (SpotPricePoint.timestamp (hd nanSpot)) = ''2025-02-18T10:00:00.000Z''"
    by (simp add: nanSpot_def toHourIso_example)
  show ?thesis
    unfolding b c using a run_oneSample_nanSpot by simp
qed

section \<open>Magnitude of rounded results\<close>

lemma pow2_powi: "pow2 k = 2 powi k"
  by (simp add: pow2_def power_int_def field_simps)

lemma pow2_pos: "0 < pow2 k"
  by (simp add: pow2_powi)

lemma pow2_add: "pow2 (j + k) = pow2 j * pow2 k"
  by (simp add: pow2_powi power_int_add)

lemma pow2_1: "pow2 1 = 2"
  by (simp add: pow2_def)

lemma pow2_Suc: "pow2 (e + 1) = 2 * pow2 e"
  unfolding pow2_add pow2_1 by simp

lemma pow2_pred: "pow2 (e - 1) = pow2 e / 2"
  using pow2_Suc [of "e - 1"] by simp

lemma pow2_mono: "j \<le> k \<Longrightarrow> pow2 j \<le> pow2 k"
  by (simp add: pow2_powi power_int_increasing)

lemma pow2_of_nat: "0 \<le> k \<Longrightarrow> pow2 k = of_int (2 ^ nat k)"
  by (simp add: pow2_def)

text \<open>The scale loops keep the value \<open>m * 2^e\<close> and end on a significand in the unit
  binade, or at one of the two ends of the exponent range.\<close>

lemma scaleDown_spec:
  "1 \<le> m \<Longrightarrow> e \<le> 1024 \<Longrightarrow> scaleDown m e = (m', e') \<Longrightarrow>
     m * pow2 e = m' * pow2 e' \<and> 1 \<le> m' \<and> e \<le> e' \<and> e' \<le> 1024 \<and> (e' < 1024 \<longrightarrow> m' < 2)"
proof (induction m e rule: scaleDown.induct)
  case (1 m e)
  show ?case
  proof (cases "m < 2 \<or> 1024 \<le> e")
    case True
    then show ?thesis using "1.prems" by (auto simp: scaleDown.simps [of m e])
  next
    case False
    then have s: "scaleDown (m / 2) (e + 1) = (m', e')"
      using "1.prems"(3) by (simp add: scaleDown.simps [of m e])
    have "m / 2 * pow2 (e + 1) = m' * pow2 e' \<and> 1 \<le> m' \<and> e + 1 \<le> e' \<and> e' \<le> 1024
          \<and> (e' < 1024 \<longrightarrow> m' < 2)"
      using "1.IH" [OF False _ _ s] False by simp
    then show ?thesis by (simp add: pow2_Suc)
  qed
qed

lemma scaleUp_spec:
  "0 < m \<Longrightarrow> m < 2 \<Longrightarrow> - 1022 \<le> e \<Longrightarrow> scaleUp m e = (m', e') \<Longrightarrow>
     m * pow2 e = m' * pow2 e' \<and> 0 < m' \<and> m' < 2 \<and> - 1022 \<le> e' \<and> e' \<le> e
     \<and> (- 1022 < e' \<longrightarrow> 1 \<le> m')"
proof (induction m e rule: scaleUp.induct)
  case (1 m e)
  show ?case
  proof (cases "1 \<le> m \<or> e \<le> - 1022")
    case True
    then show ?thesis using "1.prems" by (auto simp: scaleUp.simps [of m e])
  next
    case False
    then have s: "scaleUp (2 * m) (e - 1) = (m', e')"
      using "1.prems"(4) by (simp add: scaleUp.simps [of m e])
    have "2 * m * pow2 (e - 1) = m' * pow2 e' \<and> 0 < m' \<and> m' < 2 \<and> - 1022 \<le> e' \<and> e' \<le> e - 1
          \<and> (- 1022 < e' \<longrightarrow> 1 \<le> m')"
      using "1.IH" [OF False _ _ _ s] False "1.prems"(1) by simp
    then show ?thesis by (simp add: pow2_pred)
  qed
qed

lemma normalise_spec:
  assumes "0 < a" and "normalise a = (m, e)"
  shows "a = m * pow2 e \<and> 0 < m \<and> - 1022 \<le> e \<and> e \<le> 1024 \<and> (e < 1024 \<longrightarrow> m < 2)
         \<and> (- 1022 < e \<longrightarrow> 1 \<le> m)"
proof (cases "1 \<le> a")
  case True
  then have "scaleDown a 0 = (m, e)" using assms(2) by (simp add: normalise_def)
  from scaleDown_spec [OF True _ this] show ?thesis by (auto simp: pow2_def)
next
  case False
  then have "scaleUp a 0 = (m, e)" using assms(2) by (simp add: normalise_def)
  from scaleUp_spec [OF assms(1) _ _ this] False show ?thesis by (auto simp: pow2_def)
qed

lemma roundHalfEven_le: "q \<le> of_int K \<Longrightarrow> roundHalfEven q \<le> K"
  unfolding roundHalfEven_def Let_def by (auto; linarith)

lemma roundHalfEven_nonneg: "0 \<le> q \<Longrightarrow> 0 \<le> roundHalfEven q"
  unfolding roundHalfEven_def Let_def by (auto; linarith)

text \<open>
  Rounding does not pass a double: a real of magnitude at most \<open>N * 2^j\<close>, where
  \<open>N < 2^53\<close> and \<open>2^j\<close> is in the range of the unit in the last place, rounds to a
  finite number of magnitude at most \<open>N * 2^j\<close>.
\<close>

lemma binary64_bound:
  assumes le: "\<bar>x\<bar> \<le> of_int N * pow2 j" and N: "N < 2 ^ 53" and j: "- 1074 \<le> j" "j \<le> 971"
  shows "\<exists>y. binary64 x = Num y \<and> \<bar>y\<bar> \<le> of_int N * pow2 j"
proof (cases "x = 0")
  case True
  then show ?thesis using le by (simp add: binary64_def)
next
  case False
  define a where "a = \<bar>x\<bar>"
  obtain m e where ne: "normalise a = (m, e)" by (cases "normalise a")
  have apos: "0 < a" using False by (simp add: a_def)
  note sp = normalise_spec [OF apos ne]
  define n where "n = roundHalfEven (m * 4503599627370496)"
  define c where "c = of_int N * pow2 j"
  have n0: "0 \<le> n" unfolding n_def using sp by (intro roundHalfEven_nonneg) simp
  have p52: "pow2 52 = 4503599627370496" by (simp add: pow2_def)
  have p53: "pow2 53 = 2 ^ 53" by (simp add: pow2_def)
  have ac: "a \<le> c" using le by (simp add: a_def c_def)
  have clt: "c < pow2 (j + 53)"
  proof -
    have "of_int N < (2 :: real) ^ 53" using N by (metis of_int_less_iff of_int_numeral of_int_power)
    then have "of_int N * pow2 j < 2 ^ 53 * pow2 j" using pow2_pos [of j] by simp
    moreover have "pow2 (j + 53) = pow2 j * 2 ^ 53" unfolding pow2_add p53 ..
    ultimately show ?thesis by (simp add: c_def mult.commute)
  qed
  have above: "1 \<le> m \<Longrightarrow> pow2 e \<le> a"
  proof -
    assume "1 \<le> m"
    then have "1 * pow2 e \<le> m * pow2 e" using pow2_pos [of e] by (intro mult_right_mono) simp_all
    then show ?thesis using sp by simp
  qed
  have et: "e - 52 \<le> j"
  proof (rule ccontr)
    assume "\<not> e - 52 \<le> j"
    then have je: "j + 53 \<le> e" by simp
    then have "- 1022 < e" using j by simp
    then have "pow2 e \<le> a" using sp above by simp
    moreover have "pow2 (j + 53) \<le> pow2 e" using je by (rule pow2_mono)
    ultimately show False using ac clt by simp
  qed
  define K where "K = N * 2 ^ nat (j - (e - 52))"
  have cK: "c = of_int K * pow2 (e - 52)"
  proof -
    have "pow2 j = pow2 (j - (e - 52)) * pow2 (e - 52)"
      using pow2_add [of "j - (e - 52)" "e - 52"] by simp
    moreover have "pow2 (j - (e - 52)) = of_int (2 ^ nat (j - (e - 52)))"
      using et by (intro pow2_of_nat) simp
    ultimately show ?thesis by (simp add: K_def c_def)
  qed
  have q: "m * 4503599627370496 = a / pow2 (e - 52)"
  proof -
    have "pow2 e = pow2 (e - 52) * pow2 52" using pow2_add [of "e - 52" 52] by simp
    then show ?thesis using sp pow2_pos [of "e - 52"] by (simp add: p52)
  qed
  have "a / pow2 (e - 52) \<le> of_int K"
    using ac pow2_pos [of "e - 52"] by (simp add: cK pos_divide_le_eq)
  then have nK: "n \<le> K" unfolding n_def q by (rule roundHalfEven_le)
  define v where "v = of_int n * pow2 (e - 52)"
  have vc: "v \<le> c" using nK pow2_pos [of "e - 52"] by (simp add: v_def cK)
  have v0: "0 \<le> v" using n0 pow2_pos [of "e - 52"] by (simp add: v_def)
  have c1024: "c < pow2 1024" using clt pow2_mono [of "j + 53" 1024] j by simp
  have e1024: "e < 1024"
  proof (rule ccontr)
    assume "\<not> e < 1024"
    then have e: "e = 1024" using sp by simp
    then have "pow2 e \<le> a" using sp above by simp
    then show False using ac c1024 e by simp
  qed
  have noover: "\<not> (e = 1023 \<and> 9007199254740992 \<le> n)"
  proof
    assume h: "e = 1023 \<and> 9007199254740992 \<le> n"
    then have "(9007199254740992 :: real) \<le> of_int n" by linarith
    then have "9007199254740992 * pow2 971 \<le> v" using h pow2_pos [of 971] by (simp add: v_def)
    moreover have "pow2 1024 = 9007199254740992 * pow2 971" using pow2_add [of 53 971] p53 by simp
    ultimately show False using vc c1024 by simp
  qed
  have "binary64 x = Num (if 0 < x then v else - v)"
    using False e1024 noover ne
    by (simp add: binary64_def a_def [symmetric] n_def [symmetric] v_def Let_def)
  then show ?thesis using vc v0 by (auto simp: c_def)
qed

lemma binary64_not_NaN: "binary64 x \<noteq> NaN"
  by (simp add: binary64_def Let_def split: prod.splits)

lemma binary64_nonpos:
  assumes "x \<le> 0"
  shows "binary64 x = NInf \<or> (\<exists>y. binary64 x = Num y \<and> y \<le> 0)"
proof (cases "x = 0")
  case True
  then show ?thesis by (simp add: binary64_def)
next
  case False
  obtain m e where ne: "normalise \<bar>x\<bar> = (m, e)" by (cases "normalise \<bar>x\<bar>")
  have "0 < \<bar>x\<bar>" using False by simp
  note sp = normalise_spec [OF this ne]
  have "0 \<le> roundHalfEven (m * 4503599627370496)" using sp by (intro roundHalfEven_nonneg) simp
  then have "0 \<le> of_int (roundHalfEven (m * 4503599627370496)) * pow2 (e - 52)"
    using pow2_pos [of "e - 52"] by simp
  then show ?thesis using False assms ne by (simp add: binary64_def Let_def)
qed

lemma finiteWithin_Num [simp]: "finiteWithin c (Num x) \<longleftrightarrow> \<bar>x\<bar> \<le> c"
  by (simp add: finiteWithin_def)

lemma finiteWithin_special [simp]: "\<not> finiteWithin c NaN" "\<not> finiteWithin c PInf" "\<not> finiteWithin c NInf"
  by (simp_all add: finiteWithin_def)

lemma finiteWithin_iff: "finiteWithin c a \<longleftrightarrow> (\<exists>x. a = Num x \<and> \<bar>x\<bar> \<le> c)"
  by (cases a) auto

lemma finiteWithin_mono: "finiteWithin c a \<Longrightarrow> c \<le> d \<Longrightarrow> finiteWithin d a"
  by (auto simp: finiteWithin_iff)

lemma finiteWithin_isFinite: "finiteWithin c a \<Longrightarrow> isFinite a"
  by (auto simp: finiteWithin_iff)

lemma round64_finiteWithin:
  assumes "finiteWithin c a" and "c \<le> of_int N * pow2 j" and "N < 2 ^ 53" and "- 1074 \<le> j" and "j \<le> 971"
  shows "finiteWithin (of_int N * pow2 j) (round64 a)"
proof -
  from assms(1) obtain x where x: "a = Num x" "\<bar>x\<bar> \<le> c" by (auto simp: finiteWithin_iff)
  then have "\<bar>x\<bar> \<le> of_int N * pow2 j" using assms(2) by simp
  from binary64_bound [OF this assms(3-5)] show ?thesis by (auto simp: x round64_def)
qed

lemma round64_finiteWithin_pow2:
  assumes "finiteWithin c a" and "c \<le> pow2 j" and "- 1074 \<le> j" and "j \<le> 971"
  shows "finiteWithin (pow2 j) (round64 a)"
  using round64_finiteWithin [OF assms(1), of 1 j] assms(2-4) by simp

lemma add64_finiteWithin:
  assumes "finiteWithin c a" and "finiteWithin d b" and "c + d \<le> pow2 j" and "- 1074 \<le> j" and "j \<le> 971"
  shows "finiteWithin (pow2 j) (add64 a b)"
proof -
  have "finiteWithin (c + d) (a + b)" using assms(1,2) by (auto simp: finiteWithin_iff)
  then show ?thesis unfolding add64_def using assms(3-5) by (rule round64_finiteWithin_pow2)
qed

lemma sub64_finiteWithin:
  assumes "finiteWithin c a" and "finiteWithin d b" and "c + d \<le> pow2 j" and "- 1074 \<le> j" and "j \<le> 971"
  shows "finiteWithin (pow2 j) (sub64 a b)"
proof -
  have "finiteWithin (c + d) (a - b)" using assms(1,2) by (auto simp: finiteWithin_iff minus_number_def)
  then show ?thesis unfolding sub64_def using assms(3-5) by (rule round64_finiteWithin_pow2)
qed

lemma mul64_finiteWithin:
  assumes "finiteWithin c a" and "finiteWithin d b" and "c * d \<le> pow2 j" and "- 1074 \<le> j" and "j \<le> 971"
  shows "finiteWithin (pow2 j) (mul64 a b)"
proof -
  have "finiteWithin (c * d) (a * b)"
    using assms(1,2) by (auto simp: finiteWithin_iff abs_mult intro!: mult_mono)
  then show ?thesis unfolding mul64_def using assms(3-5) by (rule round64_finiteWithin_pow2)
qed

text \<open>A running sum of \<open>k\<close> terms of magnitude at most \<open>2^j\<close> takes one more.\<close>

lemma add64_finiteWithin_count:
  assumes "finiteWithin (of_nat k * pow2 j) s" and "finiteWithin (pow2 j) x" and "Suc k < 2 ^ 53"
    and "- 1074 \<le> j" and "j \<le> 971"
  shows "finiteWithin (of_nat (Suc k) * pow2 j) (add64 s x)"
proof -
  have "finiteWithin (of_nat k * pow2 j + pow2 j) (s + x)" using assms(1,2) by (auto simp: finiteWithin_iff)
  moreover have "of_nat k * pow2 j + pow2 j \<le> of_int (int (Suc k)) * pow2 j"
    by (simp add: algebra_simps)
  moreover have "int (Suc k) < 2 ^ 53" using assms(3) by (metis of_nat_less_iff of_nat_numeral of_nat_power)
  ultimately have "finiteWithin (of_int (int (Suc k)) * pow2 j) (round64 (s + x))"
    using assms(4,5) by (intro round64_finiteWithin)
  then show ?thesis by (simp add: add64_def)
qed

lemma foldl_add64_finiteWithin:
  assumes "- 1074 \<le> j" and "j \<le> 971"
  shows "\<forall>x \<in> set xs. finiteWithin (pow2 j) x \<Longrightarrow> finiteWithin (of_nat k * pow2 j) s \<Longrightarrow>
     k + length xs < 2 ^ 53 \<Longrightarrow>
     finiteWithin (of_nat (k + length xs) * pow2 j) (foldl (\<lambda>sum value. add64 sum value) s xs)"
proof (induction xs arbitrary: s k)
  case Nil
  then show ?case by simp
next
  case (Cons x xs)
  have "finiteWithin (of_nat (Suc k) * pow2 j) (add64 s x)"
    using Cons.prems assms by (intro add64_finiteWithin_count) auto
  from Cons.IH [OF _ this] Cons.prems show ?case by simp
qed

lemma mean_finiteWithin:
  assumes "\<forall>x \<in> set xs. finiteWithin (pow2 j) x" and "length xs < 2 ^ 53" and "- 1074 \<le> j" and "j \<le> 971"
  shows "finiteWithin (pow2 j) (mean xs)"
proof (cases "xs = []")
  case True
  then show ?thesis using pow2_pos [of j] by (simp add: mean_def)
next
  case False
  have "finiteWithin (of_nat (0 + length xs) * pow2 j) (foldl (\<lambda>sum value. add64 sum value) (Num 0) xs)"
    using assms by (intro foldl_add64_finiteWithin) auto
  then obtain y where y: "foldl (\<lambda>sum value. add64 sum value) (Num 0) xs = Num y"
    and yb: "\<bar>y\<bar> \<le> real (length xs) * pow2 j"
    by (auto simp: finiteWithin_iff)
  have n: "0 < real (length xs)" using False by simp
  have "\<bar>y / real (length xs)\<bar> \<le> pow2 j"
    using yb n by (simp add: pos_divide_le_eq mult.commute)
  then have "finiteWithin (pow2 j) (Num y / Num (real (length xs)))" using n by simp
  then have "finiteWithin (pow2 j) (round64 (Num y / Num (real (length xs))))"
    using assms(3,4) by (intro round64_finiteWithin_pow2 [where c = "pow2 j"]) auto
  then show ?thesis using False by (simp add: mean_def y div64_def)
qed

section \<open>Predicted prices\<close>

lemma pow2_3: "pow2 3 = 8"
  by (simp add: pow2_def)

lemma pow2_333: "pow2 333 = 2 ^ 333"
  by (simp add: pow2_def)

lemma limit_le_pow2_333: "(10 :: real) ^ 100 + 15 \<le> pow2 333"
  unfolding pow2_333 by simp

lemma fixed2_minus20: "fixed2 (- 20) = - 20"
  by (simp add: fixed2_def)

lemma fixed2_450: "fixed2 450 = 450"
  by (simp add: fixed2_def)

text \<open>The clamp and the rounding to two decimals of a finite raw value, and of any raw
  value.\<close>

lemma clamp_range:
  assumes "isFinite raw"
  shows "\<exists>x. toFixed2 (Math_max (Num (- 20)) (Math_min (Num 450) raw)) = Num x
           \<and> - 20 \<le> x \<and> x \<le> 450"
proof -
  from assms obtain y where y: "raw = Num y" by (auto simp: isFinite_iff)
  let ?z = "max (- 20) (min 450 y)"
  have "fixed2 (- 20) \<le> fixed2 ?z" by (rule fixed2_mono) simp
  moreover have "fixed2 ?z \<le> fixed2 450" by (rule fixed2_mono) simp
  ultimately show ?thesis unfolding y by (simp add: fixed2_minus20 fixed2_450)
qed

lemma clamp_cases:
  "toFixed2 (Math_max (Num (- 20)) (Math_min (Num 450) raw)) = NaN
   \<or> (\<exists>x. toFixed2 (Math_max (Num (- 20)) (Math_min (Num 450) raw)) = Num x
           \<and> - 20 \<le> x \<and> x \<le> 450)"
proof (cases raw)
  case (Num y)
  then show ?thesis using clamp_range [of raw] by simp
qed (simp_all add: fixed2_minus20 fixed2_450)

lemma fixed2_finiteWithin:
  assumes "finiteWithin (10 ^ 100) v"
  shows "finiteWithin (pow2 333) (toFixed2 v)"
proof -
  from assms obtain x where x: "v = Num x" "\<bar>x\<bar> \<le> 10 ^ 100" by (auto simp: finiteWithin_iff)
  have "fixed2 x \<le> fixed2 (10 ^ 100)" using x by (intro fixed2_mono) simp
  moreover have "fixed2 (- (10 ^ 100)) \<le> fixed2 x" using x by (intro fixed2_mono) simp
  moreover have "fixed2 (10 ^ 100) = 10 ^ 100" "fixed2 (- (10 ^ 100)) = - (10 ^ 100)"
    by (simp_all add: fixed2_def)
  ultimately have "\<bar>fixed2 x\<bar> \<le> 10 ^ 100" by simp
  then show ?thesis using limit_le_pow2_333 by (simp add: x)
qed

text \<open>The heating demand of a bounded temperature.\<close>

lemma demand_finiteWithin:
  assumes "boundedTemperature t"
  shows "finiteWithin (pow2 333) (Math_max (Num 0) (sub64 comfortTemp t))"
proof (cases t)
  case (Num x)
  show ?thesis
  proof (cases "15 \<le> x")
    case True
    then have "15 - x \<le> 0" by simp
    from binary64_nonpos [OF this] show ?thesis
      using pow2_pos [of 333]
      by (auto simp: Num sub64_def round64_def comfortTemp_def minus_number_def)
  next
    case False
    have "- (10 ^ 100) \<le> x" using assms by (simp add: boundedTemperature_def Num)
    then have "\<bar>15 - x\<bar> \<le> 10 ^ 100 + 15" using False by simp
    then have "finiteWithin (10 ^ 100 + 15) (comfortTemp - t)"
      by (simp add: Num comfortTemp_def minus_number_def)
    then have "finiteWithin (pow2 333) (sub64 comfortTemp t)"
      unfolding sub64_def using limit_le_pow2_333 by (rule round64_finiteWithin_pow2) simp_all
    then show ?thesis by (auto simp: finiteWithin_iff)
  qed
next
  case PInf
  then show ?thesis
    using pow2_pos [of 333] by (simp add: sub64_def round64_def comfortTemp_def minus_number_def)
qed (use assms in \<open>simp_all add: boundedTemperature_def\<close>)

lemma betaLoop_finite:
  assumes "\<forall>(d, p) \<in> set dps. finiteWithin (pow2 333) d \<and> finiteWithin (pow2 333) p"
    and "finiteWithin (pow2 333) dm" and "finiteWithin (pow2 333) pm"
  shows "finiteWithin (of_nat k * pow2 668) cov \<Longrightarrow> finiteWithin (of_nat k * pow2 668) var \<Longrightarrow>
     k + length dps < 2 ^ 53 \<Longrightarrow>
     isFinite (fst (betaLoop dm pm dps (cov, var))) \<and> isFinite (snd (betaLoop dm pm dps (cov, var)))"
  using assms(1)
proof (induction dps arbitrary: cov var k)
  case Nil
  then show ?case by (auto dest: finiteWithin_isFinite)
next
  case (Cons dp rest)
  obtain d p where dp: "dp = (d, p)" by (cases dp)
  have d: "finiteWithin (pow2 333) d" and p: "finiteWithin (pow2 333) p" using Cons.prems(4) dp by auto
  have two: "pow2 333 + pow2 333 \<le> pow2 334" using pow2_Suc [of 333] by simp
  have sq: "pow2 334 * pow2 334 \<le> pow2 668" using pow2_add [of 334 334] by simp
  have dc: "finiteWithin (pow2 334) (sub64 d dm)"
    using d assms(2) two by (rule sub64_finiteWithin) simp_all
  have pc: "finiteWithin (pow2 334) (sub64 p pm)"
    using p assms(3) two by (rule sub64_finiteWithin) simp_all
  have c1: "finiteWithin (pow2 668) (mul64 (sub64 d dm) (sub64 p pm))"
    using dc pc sq by (rule mul64_finiteWithin) simp_all
  have v1: "finiteWithin (pow2 668) (mul64 (sub64 d dm) (sub64 d dm))"
    using dc dc sq by (rule mul64_finiteWithin) simp_all
  have k: "Suc k < 2 ^ 53" using Cons.prems(3) by simp
  have c': "finiteWithin (of_nat (Suc k) * pow2 668) (add64 cov (mul64 (sub64 d dm) (sub64 p pm)))"
    using Cons.prems(1) c1 k by (rule add64_finiteWithin_count) simp_all
  have v': "finiteWithin (of_nat (Suc k) * pow2 668) (add64 var (mul64 (sub64 d dm) (sub64 d dm)))"
    using Cons.prems(2) v1 k by (rule add64_finiteWithin_count) simp_all
  have "\<forall>(d, p) \<in> set rest. finiteWithin (pow2 333) d \<and> finiteWithin (pow2 333) p"
    using Cons.prems(4) by auto
  from Cons.IH [OF c' v' _ this] Cons.prems(3) show ?case
    unfolding dp by (simp add: Let_def)
qed

lemma clamp_beta:
  assumes "isFinite cov" and "isFinite var" and "\<not> strictEq var (Num 0)"
  shows "finiteWithin (pow2 3) (Math_max (Num (- 2.5)) (Math_min (Num 6) (div64 cov var)))"
proof -
  from assms obtain x y where xy: "cov = Num x" "var = Num y" "y \<noteq> 0"
    by (auto simp: isFinite_iff strictEq_def)
  then have q: "div64 cov var = binary64 (x / y)" by (simp add: div64_def round64_def)
  show ?thesis
    unfolding q pow2_3 using binary64_not_NaN [of "x / y"] by (cases "binary64 (x / y)") auto
qed

lemma zip_all:
  "\<forall>x \<in> set xs. P x \<Longrightarrow> \<forall>y \<in> set ys. Q y \<Longrightarrow> \<forall>(a, b) \<in> set (zip xs ys). P a \<and> Q b"
  by (auto dest: set_zip_leftD set_zip_rightD)

lemma estimateTemperatureBeta_finiteWithin:
  assumes "\<forall>p \<in> set pairs. boundedTemperature (HistoricalPair.temperature p)
             \<and> finiteWithin (10 ^ 100) (HistoricalPair.price p)"
    and len: "length pairs < 2 ^ 32"
  shows "finiteWithin (pow2 3) (estimateTemperatureBeta pairs comfortTemp)"
proof (cases "length pairs < 2")
  case True
  then show ?thesis by (simp add: estimateTemperatureBeta_def pow2_3)
next
  case False
  let ?demand = "map (\<lambda>point. Math_max (Num 0) (sub64 comfortTemp (HistoricalPair.temperature point)))
                   pairs"
  let ?prices = "map HistoricalPair.price pairs"
  have fd: "\<forall>x \<in> set ?demand. finiteWithin (pow2 333) x"
    using assms(1) by (auto intro!: demand_finiteWithin)
  have fp: "\<forall>x \<in> set ?prices. finiteWithin (pow2 333) x"
    using assms(1) limit_le_pow2_333 by (auto intro: finiteWithin_mono)
  have zip: "\<forall>(d, p) \<in> set (zip ?demand ?prices). finiteWithin (pow2 333) d \<and> finiteWithin (pow2 333) p"
    using fd fp by (rule zip_all)
  have l53: "length pairs < 2 ^ 53" using len by (rule less_trans) simp
  have dm: "finiteWithin (pow2 333) (mean ?demand)" using fd l53 by (intro mean_finiteWithin) simp_all
  have pm: "finiteWithin (pow2 333) (mean ?prices)" using fp l53 by (intro mean_finiteWithin) simp_all
  obtain cov var where
    cv: "betaLoop (mean ?demand) (mean ?prices) (zip ?demand ?prices) (Num 0, Num 0) = (cov, var)"
    by (cases "betaLoop (mean ?demand) (mean ?prices) (zip ?demand ?prices) (Num 0, Num 0)")
  have fin: "isFinite cov \<and> isFinite var"
    using betaLoop_finite [OF zip dm pm, of 0 "Num 0" "Num 0"] l53 unfolding cv by simp
  show ?thesis
  proof (cases "strictEq var (Num 0)")
    case True
    then show ?thesis using False cv by (simp add: estimateTemperatureBeta_def Let_def pow2_3)
  next
    case nz: False
    from fin have "finiteWithin (pow2 3) (Math_max (Num (- 2.5)) (Math_min (Num 6) (div64 cov var)))"
      by (intro clamp_beta nz) simp_all
    then show ?thesis using False cv nz by (simp add: estimateTemperatureBeta_def Let_def)
  qed
qed

lemma weightsFor_bounded:
  "modelType \<notin> set objectPrototypeNames \<Longrightarrow> boundedWeights (weightsFor modelType)"
  by (auto simp: weightsFor_def modelWeights_def boundedWeights_def)

lemma globalMean_finiteWithin:
  assumes "\<forall>p \<in> set pairs. finiteWithin (10 ^ 100) (HistoricalPair.price p)" and "length pairs < 2 ^ 32"
  shows "finiteWithin (pow2 333) (globalMean pairs)"
proof -
  have "\<forall>x \<in> set (map HistoricalPair.price pairs). finiteWithin (pow2 333) x"
    using assms(1) limit_le_pow2_333 by (auto intro: finiteWithin_mono)
  moreover have "length (map HistoricalPair.price pairs) < 2 ^ 53"
    using assms(2) by simp
  ultimately have "finiteWithin (pow2 333) (mean (map HistoricalPair.price pairs))"
    by (intro mean_finiteWithin) simp_all
  moreover have "(30 :: real) \<le> pow2 333" using limit_le_pow2_333 by simp
  ultimately show ?thesis by (simp add: globalMean_def Let_def)
qed

lemma avgDemand_finiteWithin:
  assumes "\<forall>p \<in> set pairs. boundedTemperature (HistoricalPair.temperature p)" and "length pairs < 2 ^ 32"
  shows "finiteWithin (pow2 333) (avgDemand pairs)"
  unfolding avgDemand_def
  using assms by (intro mean_finiteWithin) (auto intro!: demand_finiteWithin)

lemma buildHourlyProfile_finiteWithin:
  assumes "\<forall>p \<in> set pairs. finiteWithin (10 ^ 100) (HistoricalPair.price p)" and "length pairs < 2 ^ 32"
    and "buildHourlyProfile parse pairs h = Some v"
  shows "finiteWithin (pow2 333) v"
proof -
  let ?g = "map HistoricalPair.price
      (filter (\<lambda>point. getUTCHours (newDate parse (HistoricalPair.timestamp point)) = Some h) pairs)"
  have v: "v = mean ?g" using assms(3) by (auto simp: buildHourlyProfile_def Let_def split: if_splits)
  have "\<forall>x \<in> set ?g. finiteWithin (pow2 333) x"
    using assms(1) limit_le_pow2_333 by (auto intro: finiteWithin_mono)
  moreover have "length ?g < 2 ^ 32"
    using le_less_trans [OF length_filter_le assms(2)] by simp
  then have "length ?g < 2 ^ 53" by (rule less_trans) simp
  ultimately show ?thesis unfolding v by (intro mean_finiteWithin) simp_all
qed

text \<open>What one call of the callback computes, with the lags and the hour mean it read.\<close>

lemma predictOne_shape:
  assumes "predictOne parse c lagHistory prevPrice obs = Inr (r, realized)"
  shows "\<exists>lag1 lag24 hourMean.
      (lag1 = prevPrice \<or> (\<exists>k. lagHistory k = Some lag1))
    \<and> (lag24 = cGlobalMean c \<or> (\<exists>k. lagHistory k = Some lag24))
    \<and> (hourMean = cGlobalMean c \<or> (\<exists>h. cHourlyProfile c h = Some hourMean))
    \<and> predictedPrice r =
        toFixed2 (Math_max (Num (- 20)) (Math_min (Num 450)
          (add64
             (add64
                (add64
                   (add64 (mul64 (Weights.lag1 (cWeights c)) lag1)
                          (mul64 (Weights.lag24 (cWeights c)) lag24))
                   (mul64 (Weights.hour (cWeights c)) hourMean))
                (mul64 (Weights.mean (cWeights c)) (cGlobalMean c)))
             (mul64 (mul64 (Weights.temp (cWeights c)) (cTempBeta c))
                (sub64 (Math_max (Num 0) (sub64 comfortTemp (FmiDataPoint.temperature obs)))
                   (cAvgDemand c))))))
    \<and> (realized = predictedPrice r \<or> (\<exists>k v. priceMap c k = Some v \<and> realized = toFixed2 v))"
proof -
  from assms obtain prevHour prev24Hour where
    ph: "toISOString (newDateBefore (newDate parse (if toHourIso parse (time obs) \<noteq> []
                 then toHourIso parse (time obs) else time obs)) (60 * 60 * 1000)) = Inr prevHour"
    and p24: "toISOString (newDateBefore (newDate parse (if toHourIso parse (time obs) \<noteq> []
                 then toHourIso parse (time obs) else time obs)) (24 * 60 * 60 * 1000)) = Inr prev24Hour"
    by (auto simp: predictOne_def Let_def split: sum.splits)
  define lag1 where "lag1 = (case lagHistory prevHour of Some v \<Rightarrow> v | None \<Rightarrow> prevPrice)"
  define lag24 where "lag24 = (case lagHistory prev24Hour of Some v \<Rightarrow> v | None \<Rightarrow> cGlobalMean c)"
  define hourMean where "hourMean =
     (case (case getUTCHours (newDate parse (if toHourIso parse (time obs) \<noteq> []
                 then toHourIso parse (time obs) else time obs)) of
              None \<Rightarrow> None | Some h \<Rightarrow> cHourlyProfile c h) of
        Some v \<Rightarrow> if isFinite v \<and> gt v (Num 0) then v else cGlobalMean c
      | None \<Rightarrow> cGlobalMean c)"
  have a: "lag1 = prevPrice \<or> (\<exists>k. lagHistory k = Some lag1)"
    unfolding lag1_def by (auto split: option.splits)
  have b: "lag24 = cGlobalMean c \<or> (\<exists>k. lagHistory k = Some lag24)"
    unfolding lag24_def by (auto split: option.splits)
  have h: "hourMean = cGlobalMean c \<or> (\<exists>h. cHourlyProfile c h = Some hourMean)"
    unfolding hourMean_def by (auto split: option.splits)
  have p: "predictedPrice r =
        toFixed2 (Math_max (Num (- 20)) (Math_min (Num 450)
          (add64
             (add64
                (add64
                   (add64 (mul64 (Weights.lag1 (cWeights c)) lag1)
                          (mul64 (Weights.lag24 (cWeights c)) lag24))
                   (mul64 (Weights.hour (cWeights c)) hourMean))
                (mul64 (Weights.mean (cWeights c)) (cGlobalMean c)))
             (mul64 (mul64 (Weights.temp (cWeights c)) (cTempBeta c))
                (sub64 (Math_max (Num 0) (sub64 comfortTemp (FmiDataPoint.temperature obs)))
                   (cAvgDemand c))))))"
    using assms ph p24 unfolding lag1_def lag24_def hourMean_def
    by (auto simp: predictOne_def Let_def)
  have q: "realized = predictedPrice r \<or> (\<exists>k v. priceMap c k = Some v \<and> realized = toFixed2 v)"
  proof -
    define ts where "ts = (if toHourIso parse (time obs) \<noteq> []
                 then toHourIso parse (time obs) else time obs)"
    have act: "actualPrice r =
        (case priceMap c ts of
           Some v \<Rightarrow> if \<not> isForecast obs then Some (toFixed2 v) else None
         | None \<Rightarrow> None)"
      using assms ph p24 unfolding ts_def by (auto simp: predictOne_def Let_def)
    have z: "realized = (case actualPrice r of Some v \<Rightarrow> v | None \<Rightarrow> predictedPrice r)"
      using assms ph p24 by (auto simp: predictOne_def Let_def split: option.splits)
    show ?thesis
    proof (cases "actualPrice r")
      case None
      then show ?thesis using z by simp
    next
      case (Some v)
      then obtain w where "priceMap c ts = Some w" "v = toFixed2 w"
        using act by (auto split: option.splits if_splits)
      then show ?thesis using z Some by auto
    qed
  qed
  from a b h p q show ?thesis by blast
qed

lemma predictOne_NaN_or_range:
  assumes "predictOne parse c lagHistory prevPrice obs = Inr (r, realized)"
  shows "predictedPrice r = NaN \<or> (\<exists>x. predictedPrice r = Num x \<and> - 20 \<le> x \<and> x \<le> 450)"
proof -
  from predictOne_shape [OF assms] obtain raw where
    "predictedPrice r = toFixed2 (Math_max (Num (- 20)) (Math_min (Num 450) raw))"
    by blast
  then show ?thesis using clamp_cases [of raw] by simp
qed

lemma predictAll_NaN_or_range:
  "predictAll parse c lagHistory prevPrice ws = Inr out \<Longrightarrow> r \<in> set out \<Longrightarrow>
     predictedPrice r = NaN \<or> (\<exists>x. predictedPrice r = Num x \<and> - 20 \<le> x \<and> x \<le> 450)"
proof (induction ws arbitrary: lagHistory prevPrice out)
  case Nil
  then show ?case by simp
next
  case (Cons obs rest)
  from Cons.prems(1) obtain r0 realized rs where
    one: "predictOne parse c lagHistory prevPrice obs = Inr (r0, realized)"
    and rest: "predictAll parse c (lagHistory(PriceData.timestamp r0 \<mapsto> realized)) realized rest = Inr rs"
    and out: "out = r0 # rs"
    by (auto split: sum.splits prod.splits)
  show ?case
  proof (cases "r = r0")
    case True
    then show ?thesis using predictOne_NaN_or_range [OF one] by simp
  next
    case False
    then have "r \<in> set rs" using Cons.prems(2) out by simp
    then show ?thesis using Cons.IH [OF rest] by simp
  qed
qed

text \<open>
  On a bounded closure, bounded lags and a bounded temperature, no sum or product of the
  callback leaves the range of the doubles: the raw prediction is finite.
\<close>

lemma predictOne_bounded:
  assumes c: "boundedClosure c"
    and lh: "\<forall>k v. lagHistory k = Some v \<longrightarrow> finiteWithin (pow2 333) v"
    and pp: "finiteWithin (pow2 333) prevPrice"
    and t: "boundedTemperature (FmiDataPoint.temperature obs)"
    and run: "predictOne parse c lagHistory prevPrice obs = Inr (r, realized)"
  shows "(\<exists>x. predictedPrice r = Num x \<and> - 20 \<le> x \<and> x \<le> 450) \<and> finiteWithin (pow2 333) realized"
proof -
  from predictOne_shape [OF run] obtain lag1 lag24 hourMean where
    a: "lag1 = prevPrice \<or> (\<exists>k. lagHistory k = Some lag1)"
    and b: "lag24 = cGlobalMean c \<or> (\<exists>k. lagHistory k = Some lag24)"
    and h: "hourMean = cGlobalMean c \<or> (\<exists>h. cHourlyProfile c h = Some hourMean)"
    and p: "predictedPrice r =
        toFixed2 (Math_max (Num (- 20)) (Math_min (Num 450)
          (add64
             (add64
                (add64
                   (add64 (mul64 (Weights.lag1 (cWeights c)) lag1)
                          (mul64 (Weights.lag24 (cWeights c)) lag24))
                   (mul64 (Weights.hour (cWeights c)) hourMean))
                (mul64 (Weights.mean (cWeights c)) (cGlobalMean c)))
             (mul64 (mul64 (Weights.temp (cWeights c)) (cTempBeta c))
                (sub64 (Math_max (Num 0) (sub64 comfortTemp (FmiDataPoint.temperature obs)))
                   (cAvgDemand c))))))"
    and q: "realized = predictedPrice r \<or> (\<exists>k v. priceMap c k = Some v \<and> realized = toFixed2 v)"
    by blast
  have gm: "finiteWithin (pow2 333) (cGlobalMean c)" and ad: "finiteWithin (pow2 333) (cAvgDemand c)"
    and tb: "finiteWithin (pow2 3) (cTempBeta c)"
    and w: "finiteWithin 2 (Weights.lag1 (cWeights c))" "finiteWithin 2 (Weights.lag24 (cWeights c))"
      "finiteWithin 2 (Weights.hour (cWeights c))" "finiteWithin 2 (Weights.mean (cWeights c))"
      "finiteWithin 2 (Weights.temp (cWeights c))"
    and pm: "\<And>k v. priceMap c k = Some v \<Longrightarrow> finiteWithin (10 ^ 100) v"
    and hp: "\<And>h v. cHourlyProfile c h = Some v \<Longrightarrow> finiteWithin (pow2 333) v"
    using c by (auto simp: boundedClosure_def boundedWeights_def)
  have f1: "finiteWithin (pow2 333) lag1" using a pp lh by auto
  have f24: "finiteWithin (pow2 333) lag24" using b gm lh by auto
  have fh: "finiteWithin (pow2 333) hourMean" using h gm hp by auto
  have s334: "2 * pow2 333 \<le> pow2 334" using pow2_Suc [of 333] by simp
  have a334: "pow2 333 + pow2 333 \<le> pow2 334" using pow2_Suc [of 333] by simp
  have t1: "finiteWithin (pow2 334) (mul64 (Weights.lag1 (cWeights c)) lag1)"
    using w(1) f1 s334 by (rule mul64_finiteWithin) simp_all
  have t2: "finiteWithin (pow2 334) (mul64 (Weights.lag24 (cWeights c)) lag24)"
    using w(2) f24 s334 by (rule mul64_finiteWithin) simp_all
  have t3: "finiteWithin (pow2 334) (mul64 (Weights.hour (cWeights c)) hourMean)"
    using w(3) fh s334 by (rule mul64_finiteWithin) simp_all
  have t4: "finiteWithin (pow2 334) (mul64 (Weights.mean (cWeights c)) (cGlobalMean c))"
    using w(4) gm s334 by (rule mul64_finiteWithin) simp_all
  have wb: "finiteWithin (pow2 4) (mul64 (Weights.temp (cWeights c)) (cTempBeta c))"
    using w(5) tb by (rule mul64_finiteWithin) (use pow2_Suc [of 3] in simp_all)
  have dm: "finiteWithin (pow2 333) (Math_max (Num 0) (sub64 comfortTemp (FmiDataPoint.temperature obs)))"
    using t by (rule demand_finiteWithin)
  have cd: "finiteWithin (pow2 334)
      (sub64 (Math_max (Num 0) (sub64 comfortTemp (FmiDataPoint.temperature obs))) (cAvgDemand c))"
    using dm ad a334 by (rule sub64_finiteWithin) simp_all
  have t5: "finiteWithin (pow2 338)
      (mul64 (mul64 (Weights.temp (cWeights c)) (cTempBeta c))
         (sub64 (Math_max (Num 0) (sub64 comfortTemp (FmiDataPoint.temperature obs))) (cAvgDemand c)))"
    using wb cd by (rule mul64_finiteWithin) (use pow2_add [of 4 334] in simp_all)
  have s1: "finiteWithin (pow2 335)
      (add64 (mul64 (Weights.lag1 (cWeights c)) lag1) (mul64 (Weights.lag24 (cWeights c)) lag24))"
    using t1 t2 by (rule add64_finiteWithin) (use pow2_Suc [of 334] in simp_all)
  have s2: "finiteWithin (pow2 336)
      (add64 (add64 (mul64 (Weights.lag1 (cWeights c)) lag1) (mul64 (Weights.lag24 (cWeights c)) lag24))
         (mul64 (Weights.hour (cWeights c)) hourMean))"
    using s1 t3
    by (rule add64_finiteWithin) (use pow2_Suc [of 335] pow2_mono [of 334 335] in simp_all)
  have s3: "finiteWithin (pow2 337)
      (add64
         (add64 (add64 (mul64 (Weights.lag1 (cWeights c)) lag1) (mul64 (Weights.lag24 (cWeights c)) lag24))
            (mul64 (Weights.hour (cWeights c)) hourMean))
         (mul64 (Weights.mean (cWeights c)) (cGlobalMean c)))"
    using s2 t4
    by (rule add64_finiteWithin) (use pow2_Suc [of 336] pow2_mono [of 334 336] in simp_all)
  have raw: "finiteWithin (pow2 339)
      (add64
         (add64
            (add64 (add64 (mul64 (Weights.lag1 (cWeights c)) lag1) (mul64 (Weights.lag24 (cWeights c)) lag24))
               (mul64 (Weights.hour (cWeights c)) hourMean))
            (mul64 (Weights.mean (cWeights c)) (cGlobalMean c)))
         (mul64 (mul64 (Weights.temp (cWeights c)) (cTempBeta c))
            (sub64 (Math_max (Num 0) (sub64 comfortTemp (FmiDataPoint.temperature obs))) (cAvgDemand c))))"
    using s3 t5
    by (rule add64_finiteWithin) (use pow2_Suc [of 338] pow2_mono [of 337 338] in simp_all)
  have range: "\<exists>x. predictedPrice r = Num x \<and> - 20 \<le> x \<and> x \<le> 450"
    unfolding p by (rule clamp_range [OF finiteWithin_isFinite [OF raw]])
  then have "finiteWithin (pow2 333) (predictedPrice r)" using limit_le_pow2_333 by auto
  then have "finiteWithin (pow2 333) realized" using q pm by (auto intro: fixed2_finiteWithin)
  with range show ?thesis by simp
qed

lemma predictAll_bounded:
  assumes c: "boundedClosure c"
  shows "\<forall>k v. lagHistory k = Some v \<longrightarrow> finiteWithin (pow2 333) v \<Longrightarrow>
     finiteWithin (pow2 333) prevPrice \<Longrightarrow>
     \<forall>obs \<in> set ws. boundedTemperature (FmiDataPoint.temperature obs) \<Longrightarrow>
     predictAll parse c lagHistory prevPrice ws = Inr out \<Longrightarrow> r \<in> set out \<Longrightarrow>
     \<exists>x. predictedPrice r = Num x \<and> - 20 \<le> x \<and> x \<le> 450"
proof (induction ws arbitrary: lagHistory prevPrice out)
  case Nil
  then show ?case by simp
next
  case (Cons obs rest)
  from Cons.prems(4) obtain r0 realized rs where
    one: "predictOne parse c lagHistory prevPrice obs = Inr (r0, realized)"
    and rest: "predictAll parse c (lagHistory(PriceData.timestamp r0 \<mapsto> realized)) realized rest = Inr rs"
    and out: "out = r0 # rs"
    by (auto split: sum.splits prod.splits)
  have t: "boundedTemperature (FmiDataPoint.temperature obs)" using Cons.prems(3) by simp
  from predictOne_bounded [OF c Cons.prems(1,2) t one]
  have r0: "\<exists>x. predictedPrice r0 = Num x \<and> - 20 \<le> x \<and> x \<le> 450"
    and fr: "finiteWithin (pow2 333) realized"
    by auto
  show ?case
  proof (cases "r = r0")
    case True
    then show ?thesis using r0 by simp
  next
    case False
    then have mem: "r \<in> set rs" using Cons.prems(5) out by simp
    have lh': "\<forall>k v. (lagHistory(PriceData.timestamp r0 \<mapsto> realized)) k = Some v
                \<longrightarrow> finiteWithin (pow2 333) v"
      using Cons.prems(1) fr by auto
    have ts: "\<forall>obs \<in> set rest. boundedTemperature (FmiDataPoint.temperature obs)"
      using Cons.prems(3) by simp
    from Cons.IH [OF lh' fr ts rest mem] show ?thesis .
  qed
qed

lemma marketPriceMap_foldl_bounded:
  assumes "\<forall>p \<in> set spotPrices. boundedPrice (SpotPricePoint.price p)"
    and "\<forall>k v. m k = Some v \<longrightarrow> finiteWithin (10 ^ 100) v"
  shows "foldl (\<lambda>m point.
              let hourIso = toHourIso parse (SpotPricePoint.timestamp point)
              in if hourIso \<noteq> [] \<and> isFinite (SpotPricePoint.price point)
                 then m(hourIso \<mapsto> SpotPricePoint.price point) else m) m spotPrices k = Some v
         \<Longrightarrow> finiteWithin (10 ^ 100) v"
  using assms
proof (induction spotPrices arbitrary: m)
  case Nil
  then show ?case by simp
next
  case (Cons p ps)
  have b: "isFinite (SpotPricePoint.price p) \<Longrightarrow> finiteWithin (10 ^ 100) (SpotPricePoint.price p)"
    using Cons.prems(2) by (cases "SpotPricePoint.price p") (auto simp: boundedPrice_def)
  show ?case
    by (rule Cons.IH [OF Cons.prems(1) [simplified]])
       (use Cons.prems(2,3) b in \<open>auto simp: Let_def\<close>)
qed

lemma marketPriceMap_bounded:
  "\<forall>p \<in> set spotPrices. boundedPrice (SpotPricePoint.price p) \<Longrightarrow>
     marketPriceMap parse spotPrices k = Some v \<Longrightarrow> finiteWithin (10 ^ 100) v"
  unfolding marketPriceMap_def by (rule marketPriceMap_foldl_bounded) auto

lemma length_historicalPairs: "length (historicalPairs parse pm sortedData) \<le> length sortedData"
  unfolding historicalPairs_def List.map_filter_def
  using le_trans [OF length_filter_le length_filter_le] by simp

text \<open>
  Without the bound on the prices a sum overflows: the mean of two prices of \<open>2^1023\<close> is
  \<open>Infinity\<close>, the covariance adds \<open>Infinity\<close> and \<open>-Infinity\<close>, and the temperature
  coefficient, and with it every predicted price, is NaN.
\<close>

lemma add64_overflow: "add64 (Num (2 ^ 1023)) (Num (2 ^ 1023)) = PInf"
  by (simp add: binary64_simps)

lemma mean_overflow: "mean [Num (2 ^ 1023), Num (2 ^ 1023)] = PInf"
proof -
  have "add64 (Num 0) (Num (2 ^ 1023)) = Num (2 ^ 1023)"
    by (simp add: binary64_simps)
  then show ?thesis using add64_overflow by (simp add: mean_def div64_def round64_def)
qed

lemma estimateTemperatureBeta_overflow: "estimateTemperatureBeta hugePairs comfortTemp = NaN"
proof -
  have "mean [Num 10, Num 12] = Num 11"
    by (simp add: mean_def binary64_simps)
  then show ?thesis
    using mean_overflow
    by (simp add: estimateTemperatureBeta_def hugePairs_def comfortTemp_def Let_def strictEq_def
          binary64_simps)
qed

text \<open>
  C2, amended. Every \<open>predictedPrice\<close> of the output is NaN or a number in the closed
  interval from -20 to 450. It is a number in the interval when \<open>modelType\<close> is not the
  name of a property of \<open>Object.prototype\<close>, every weather temperature is \<open>+Infinity\<close> or
  a number from \<open>-10^100\<close> upwards, every spot price that is a finite number has magnitude
  at most \<open>10^100\<close>, and there are fewer than \<open>2^32\<close> weather samples, as in every
  JavaScript array: then no sum or product of the engine overflows.
\<close>

theorem predictedPrice_in_range:
  assumes run: "generatePriceFromWeather parse weatherData spotPrices modelType = Inr out"
    and r: "r \<in> set out"
  shows "(predictedPrice r = NaN \<or> (\<exists>x. predictedPrice r = Num x \<and> - 20 \<le> x \<and> x \<le> 450))
       \<and> (modelType \<notin> set objectPrototypeNames
          \<and> (\<forall>obs \<in> set weatherData. boundedTemperature (FmiDataPoint.temperature obs))
          \<and> (\<forall>p \<in> set spotPrices. boundedPrice (SpotPricePoint.price p))
          \<and> length weatherData < 2 ^ 32
          \<longrightarrow> (\<exists>x. predictedPrice r = Num x \<and> - 20 \<le> x \<and> x \<le> 450))"
proof -
  define sortedData where "sortedData = sortedWeather parse weatherData"
  define pm where "pm = marketPriceMap parse spotPrices"
  define pairs where "pairs = historicalPairs parse pm sortedData"
  define c where "c = \<lparr>priceMap = pm,
               cGlobalMean = globalMean pairs,
               cHourlyProfile = buildHourlyProfile parse pairs,
               cAvgDemand = avgDemand pairs,
               cTempBeta = estimateTemperatureBeta pairs comfortTemp,
               cWeights = weightsFor modelType\<rparr>"
  have run': "predictAll parse c Map.empty (globalMean pairs) sortedData = Inr out"
    using run unfolding generatePriceFromWeather_def Let_def c_def pairs_def pm_def sortedData_def .
  have first: "predictedPrice r = NaN \<or> (\<exists>x. predictedPrice r = Num x \<and> - 20 \<le> x \<and> x \<le> 450)"
    using run' r by (rule predictAll_NaN_or_range)
  have second: "\<exists>x. predictedPrice r = Num x \<and> - 20 \<le> x \<and> x \<le> 450"
    if name: "modelType \<notin> set objectPrototypeNames"
      and temps: "\<forall>obs \<in> set weatherData. boundedTemperature (FmiDataPoint.temperature obs)"
      and prices: "\<forall>p \<in> set spotPrices. boundedPrice (SpotPricePoint.price p)"
      and len: "length weatherData < 2 ^ 32"
  proof -
    have ts: "\<forall>obs \<in> set sortedData. boundedTemperature (FmiDataPoint.temperature obs)"
      unfolding sortedData_def using temps by (simp add: set_sortedWeather)
    have pmb: "\<And>k v. pm k = Some v \<Longrightarrow> finiteWithin (10 ^ 100) v"
      unfolding pm_def using prices by (rule marketPriceMap_bounded)
    have pf: "\<forall>p \<in> set pairs. boundedTemperature (HistoricalPair.temperature p)
                \<and> finiteWithin (10 ^ 100) (HistoricalPair.price p)"
    proof
      fix p
      assume "p \<in> set pairs"
      then obtain obs where "obs \<in> set sortedData"
        "HistoricalPair.temperature p = FmiDataPoint.temperature obs"
        "pm (toHourIso parse (time obs)) = Some (HistoricalPair.price p)"
        unfolding pairs_def using historicalPairs_member by blast
      then show "boundedTemperature (HistoricalPair.temperature p)
                \<and> finiteWithin (10 ^ 100) (HistoricalPair.price p)"
        using ts pmb by auto
    qed
    have "length pairs \<le> length weatherData"
      unfolding pairs_def sortedData_def
      using length_historicalPairs [of parse pm "sortedWeather parse weatherData"]
      by (simp add: length_sortedWeather)
    then have pl: "length pairs < 2 ^ 32" using len by (rule le_less_trans)
    have gm: "finiteWithin (pow2 333) (globalMean pairs)"
      using pf pl by (intro globalMean_finiteWithin) simp_all
    have pp: "\<forall>p \<in> set pairs. finiteWithin (10 ^ 100) (HistoricalPair.price p)"
      using pf by simp
    have hp: "\<And>h v. buildHourlyProfile parse pairs h = Some v \<Longrightarrow> finiteWithin (pow2 333) v"
      using pp pl by (rule buildHourlyProfile_finiteWithin)
    have ad: "finiteWithin (pow2 333) (avgDemand pairs)"
      using pf pl by (intro avgDemand_finiteWithin) simp_all
    have tb: "finiteWithin (pow2 3) (estimateTemperatureBeta pairs comfortTemp)"
      using pf pl by (rule estimateTemperatureBeta_finiteWithin)
    have bc: "boundedClosure c"
      unfolding boundedClosure_def c_def
      using gm hp ad tb pmb weightsFor_bounded [OF name] by auto
    show ?thesis
      by (rule predictAll_bounded [OF bc _ gm ts run' r]) simp
  qed
  from first second show ?thesis by blast
qed

lemma run_nanSample:
  "generatePriceFromWeather parseIso nanSample [] ''Gradient Boosting'' =
     Inr [\<lparr>PriceData.timestamp = ''2025-02-18T10:00:00.000Z'', actualPrice = None,
            predictedPrice = NaN, temperature = NaN, isFuture = False\<rparr>]"
  by code_simp

theorem predictedPrice_in_range_witness:
  "generatePriceFromWeather parseIso oneSample oneSpot ''Gradient Boosting'' =
     Inr [\<lparr>PriceData.timestamp = ''2025-02-18T10:00:00.000Z'', actualPrice = Some (Num 42.12),
            predictedPrice = Num 42.12, temperature = Num 5, isFuture = False\<rparr>]
   \<and> (\<exists>x. Num 42.12 = Num x \<and> - 20 \<le> x \<and> x \<le> 450)"
proof -
  let ?r = "\<lparr>PriceData.timestamp = ''2025-02-18T10:00:00.000Z'',
            actualPrice = Some (Num 42.12), predictedPrice = Num 42.12, temperature = Num 5,
            isFuture = False\<rparr>"
  have n: "''Gradient Boosting'' \<notin> set objectPrototypeNames"
    by (simp add: objectPrototypeNames_def)
  have t: "\<forall>obs \<in> set oneSample. boundedTemperature (FmiDataPoint.temperature obs)"
    by (simp add: oneSample_def boundedTemperature_def)
  have p: "\<forall>p \<in> set oneSpot. boundedPrice (SpotPricePoint.price p)"
    by (simp add: oneSpot_def boundedPrice_def)
  have l: "length oneSample < 2 ^ 32"
    by (simp add: oneSample_def)
  have m: "?r \<in> set [?r]" by simp
  have "\<exists>x. predictedPrice ?r = Num x \<and> - 20 \<le> x \<and> x \<le> 450"
    using predictedPrice_in_range [OF run_oneSample_GradientBoosting m, THEN conjunct2] n t p l
    by blast
  then show ?thesis using run_oneSample_GradientBoosting by simp
qed

text \<open>
  C2 as stated covers every input. A sample whose temperature is NaN has heating demand NaN,
  and its predicted price is NaN, which is in no interval.
\<close>

theorem predictedPrice_NaN_counterexample:
  "generatePriceFromWeather parseIso nanSample [] ''Gradient Boosting'' =
     Inr [\<lparr>PriceData.timestamp = ''2025-02-18T10:00:00.000Z'', actualPrice = None,
            predictedPrice = NaN, temperature = NaN, isFuture = False\<rparr>]
   \<and> \<not> le (Num (- 20)) NaN \<and> \<not> le NaN (Num 450)"
  using run_nanSample by simp

section \<open>The order of the weather samples\<close>

lemma compare_valid:
  assumes "newDate parse (time a) \<noteq> None" and "newDate parse (time b) \<noteq> None"
  shows "gt (getTime (newDate parse (time a)) - getTime (newDate parse (time b))) (Num 0)
         \<longleftrightarrow> \<not> timeValue parse a \<le> timeValue parse b"
  using assms by (auto simp: getTime_def timeValue_def gt_def minus_number_def)

lemma insertSorted_valid:
  assumes "newDate parse (time x) \<noteq> None" and "\<forall>y \<in> set ys. newDate parse (time y) \<noteq> None"
  shows "insertSorted (\<lambda>a b. getTime (newDate parse (time a)) - getTime (newDate parse (time b))) x ys
         = insort_key (timeValue parse) x ys"
  using assms by (induction ys) (auto simp: compare_valid)

lemma sortedWeather_valid:
  assumes "\<forall>obs \<in> set ws. newDate parse (time obs) \<noteq> None"
  shows "sortedWeather parse ws = sort_key (timeValue parse) ws"
  using assms
proof (induction ws)
  case Nil
  then show ?case by (simp add: sortedWeather_def sortBy_def)
next
  case (Cons w ws)
  then have ih: "sortedWeather parse ws = sort_key (timeValue parse) ws" by simp
  have "\<forall>y \<in> set (sort_key (timeValue parse) ws). newDate parse (time y) \<noteq> None"
    using Cons.prems by simp
  then have "insertSorted (\<lambda>a b. getTime (newDate parse (time a)) - getTime (newDate parse (time b))) w
          (sort_key (timeValue parse) ws) = insort_key (timeValue parse) w (sort_key (timeValue parse) ws)"
    using Cons.prems by (intro insertSorted_valid) auto
  then show ?case
    using ih by (simp add: sortedWeather_def sortBy_def)
qed

lemma sort_key_permuted:
  assumes m: "mset ys = mset xs"
    and st: "\<And>k. filter (\<lambda>x. f x = k) ys = filter (\<lambda>x. f x = k) xs"
  shows "sort_key f ys = sort_key f xs"
proof (rule properties_for_sort_key [symmetric])
  show "mset (sort_key f ys) = mset xs" using m by simp
  show "sorted (map f (sort_key f ys))" by simp
  fix k
  have "filter (\<lambda>x. f k = f x) (sort_key f ys) = filter (\<lambda>x. f x = f k) (sort_key f ys)"
    by (rule filter_cong) auto
  also have "\<dots> = filter (\<lambda>x. f x = f k) ys" by (rule sort_key_stable)
  also have "\<dots> = filter (\<lambda>x. f x = f k) xs" by (rule st)
  also have "\<dots> = filter (\<lambda>x. f k = f x) xs" by (rule filter_cong) auto
  finally show "filter (\<lambda>x. f k = f x) (sort_key f ys) = filter (\<lambda>x. f k = f x) xs" .
qed

text \<open>
  C8, amended. The engine gives the same result on a weather list and on every permutation
  of it that keeps the samples of each time instant in their relative order; in
  particular on every permutation when the time instants are pairwise distinct.
\<close>

theorem generatePriceFromWeather_permuted:
  assumes m: "mset permuted = mset weatherData"
    and st: "\<forall>t. filter (\<lambda>obs. newDate parse (time obs) = Some t) permuted
                 = filter (\<lambda>obs. newDate parse (time obs) = Some t) weatherData"
  shows "generatePriceFromWeather parse permuted spotPrices modelType
         = generatePriceFromWeather parse weatherData spotPrices modelType"
proof (cases "\<forall>obs \<in> set weatherData. newDate parse (time obs) \<noteq> None")
  case True
  have s: "set permuted = set weatherData" using m by (rule mset_eq_setD)
  have v: "\<forall>obs \<in> set permuted. newDate parse (time obs) \<noteq> None" using True s by simp
  have "\<And>k. filter (\<lambda>obs. timeValue parse obs = k) permuted
          = filter (\<lambda>obs. timeValue parse obs = k) weatherData"
  proof -
    fix k
    have "filter (\<lambda>obs. timeValue parse obs = k) permuted
        = filter (\<lambda>obs. newDate parse (time obs) = Some k) permuted"
      using v by (intro filter_cong) (auto simp: timeValue_def)
    also have "\<dots> = filter (\<lambda>obs. newDate parse (time obs) = Some k) weatherData"
      using st by simp
    also have "\<dots> = filter (\<lambda>obs. timeValue parse obs = k) weatherData"
      using True by (intro filter_cong) (auto simp: timeValue_def)
    finally show "filter (\<lambda>obs. timeValue parse obs = k) permuted
          = filter (\<lambda>obs. timeValue parse obs = k) weatherData" .
  qed
  then have "sort_key (timeValue parse) permuted = sort_key (timeValue parse) weatherData"
    using m by (intro sort_key_permuted)
  then have "sortedWeather parse permuted = sortedWeather parse weatherData"
    using True v by (simp add: sortedWeather_valid)
  then show ?thesis by (simp add: generatePriceFromWeather_def)
next
  case False
  then have a: "\<exists>obs \<in> set weatherData. newDate parse (time obs) = None" by simp
  have "set permuted = set weatherData" using m by (rule mset_eq_setD)
  then have b: "\<exists>obs \<in> set permuted. newDate parse (time obs) = None" using a by simp
  have "\<exists>obs \<in> set (sortedWeather parse weatherData). newDate parse (time obs) = None"
    using a by (simp add: set_sortedWeather)
  moreover have "\<exists>obs \<in> set (sortedWeather parse permuted). newDate parse (time obs) = None"
    using b by (simp add: set_sortedWeather)
  ultimately show ?thesis
    unfolding generatePriceFromWeather_def Let_def by (simp add: predictAll_invalid)
qed


lemma newDate_10: "newDate parseIso ''2025-02-18T10:00:00.000Z'' = Some 1739872800000"
  by code_simp

lemma newDate_11: "newDate parseIso ''2025-02-18T11:00:00.000Z'' = Some 1739876400000"
  by code_simp

lemma run_twoSamplesSameTime:
  "generatePriceFromWeather parseIso twoSamplesSameTime [] ''Gradient Boosting'' =
     Inr [\<lparr>PriceData.timestamp = ''2025-02-18T10:00:00.000Z'', actualPrice = None,
            predictedPrice = Num 30, temperature = Num 5, isFuture = False\<rparr>,
          \<lparr>PriceData.timestamp = ''2025-02-18T10:00:00.000Z'', actualPrice = None,
            predictedPrice = Num 30, temperature = Num 3, isFuture = False\<rparr>]"
  by code_simp

lemma run_twoSamplesSameTime_rev:
  "generatePriceFromWeather parseIso (rev twoSamplesSameTime) [] ''Gradient Boosting'' =
     Inr [\<lparr>PriceData.timestamp = ''2025-02-18T10:00:00.000Z'', actualPrice = None,
            predictedPrice = Num 30, temperature = Num 3, isFuture = False\<rparr>,
          \<lparr>PriceData.timestamp = ''2025-02-18T10:00:00.000Z'', actualPrice = None,
            predictedPrice = Num 30, temperature = Num 5, isFuture = False\<rparr>]"
  by code_simp

theorem generatePriceFromWeather_permuted_witness:
  "mset (rev twoSamples) = mset twoSamples
   \<and> rev twoSamples \<noteq> twoSamples
   \<and> generatePriceFromWeather parseIso (rev twoSamples) oneSpot ''Gradient Boosting''
       = generatePriceFromWeather parseIso twoSamples oneSpot ''Gradient Boosting''"
proof -
  have m: "mset (rev twoSamples) = mset twoSamples" by simp
  have st: "\<forall>t. filter (\<lambda>obs. newDate parseIso (time obs) = Some t) (rev twoSamples)
                 = filter (\<lambda>obs. newDate parseIso (time obs) = Some t) twoSamples"
    by (auto simp: twoSamples_def newDate_10 newDate_11)
  have ne: "rev twoSamples \<noteq> twoSamples" by (simp add: twoSamples_def)
  show ?thesis
    using generatePriceFromWeather_permuted [OF m st, of oneSpot "''Gradient Boosting''"] m ne
    by simp
qed

text \<open>
  C8 as stated covers every permutation. The sort is stable and compares time instants
  only: two samples of the same instant stay in input order, and swapping them swaps
  their output records.
\<close>

theorem generatePriceFromWeather_order_counterexample:
  "mset (rev twoSamplesSameTime) = mset twoSamplesSameTime
   \<and> generatePriceFromWeather parseIso (rev twoSamplesSameTime) [] ''Gradient Boosting''
       \<noteq> generatePriceFromWeather parseIso twoSamplesSameTime [] ''Gradient Boosting''
   \<and> map PriceData.temperature
        (projr (generatePriceFromWeather parseIso twoSamplesSameTime [] ''Gradient Boosting''))
       = [Num 5, Num 3]
   \<and> map PriceData.temperature
        (projr (generatePriceFromWeather parseIso (rev twoSamplesSameTime) [] ''Gradient Boosting''))
       = [Num 3, Num 5]"
  unfolding run_twoSamplesSameTime run_twoSamplesSameTime_rev by simp

section \<open>When the engine returns\<close>

text \<open>
  The engine returns one record for each weather sample when the callback returns on
  every sample; with \<open>predictAll_invalid\<close> this bounds the inputs on which it throws.
\<close>

lemma predictOne_returns:
  assumes "readsBack parse obs"
  shows "\<exists>r z. predictOne parse c lagHistory prevPrice obs = Inr (r, z)"
proof -
  from assms obtain t where t: "newDate parse (time obs) = Some t"
    and lo: "- 8640000000000000 + 86400000 \<le> t"
    and rb: "parse (isoString (t - t mod 3600000)) = Some (t - t mod 3600000)"
    by (auto simp: readsBack_def split: option.splits)
  define h where "h = t - t mod 3600000"
  have hi: "toHourIso parse (time obs) = isoString h"
    by (simp add: toHourIso_eq t h_def)
  have tc: "TimeClip t = Some t" using t by (rule newDate_Some)
  then have up: "t \<le> 8640000000000000" by (simp add: TimeClip_def split: if_splits)
  have "- 2399999976 \<le> t div 3600000" using lo by linarith
  then have "- 8639999913600000 \<le> (t div 3600000) * 3600000" by linarith
  then have hlo: "- 8640000000000000 + 86400000 \<le> h"
    unfolding h_def by (simp add: algebra_simps minus_mod_eq_mult_div)
  have hup: "h \<le> 8640000000000000" unfolding h_def using up
    by (smt (verit) pos_mod_sign)
  have d: "newDate parse (isoString h) = Some h"
    using rb hlo hup by (simp add: newDate_def h_def [symmetric] TimeClip_def)
  have a: "newDateBefore (Some h) 3600000 = Some (h - 3600000)"
    using hlo hup by (simp add: newDateBefore_def TimeClip_def)
  have b: "newDateBefore (Some h) 86400000 = Some (h - 86400000)"
    using hlo hup by (simp add: newDateBefore_def TimeClip_def)
  show ?thesis
    by (simp add: predictOne_def hi isoString_nonempty d a b toISOString_def Let_def)
qed

lemma predictAll_returns:
  "\<forall>obs \<in> set ws. readsBack parse obs \<Longrightarrow>
     \<exists>out. predictAll parse c lagHistory prevPrice ws = Inr out \<and> length out = length ws"
proof (induction ws arbitrary: lagHistory prevPrice)
  case Nil
  then show ?case by simp
next
  case (Cons obs rest)
  then obtain r z where one: "predictOne parse c lagHistory prevPrice obs = Inr (r, z)"
    using predictOne_returns [of parse obs c lagHistory prevPrice] by auto
  from Cons obtain rs where
    "predictAll parse c (lagHistory(PriceData.timestamp r \<mapsto> z)) z rest = Inr rs"
    "length rs = length rest"
    by fastforce
  then show ?case using one by simp
qed


lemma generatePriceFromWeather_returns:
  assumes "\<forall>obs \<in> set weatherData. readsBack parse obs"
  shows "\<exists>out. generatePriceFromWeather parse weatherData spotPrices modelType = Inr out
           \<and> length out = length weatherData"
proof -
  have "\<forall>obs \<in> set (sortedWeather parse weatherData). readsBack parse obs"
    using assms by (simp add: set_sortedWeather)
  from predictAll_returns [OF this] show ?thesis
    unfolding generatePriceFromWeather_def Let_def by (simp add: length_sortedWeather)
qed

end
